(* ===== verification/Prelude.thy ===== *)
theory Prelude
  imports Main "HOL-Library.Multiset"
begin

text \<open>
  Shared vocabulary of the development: the collections of rewrite rules the
  component theories add to, string helpers that the JavaScript built-ins
  need (separator joins, decimal digits) and the generic list and
  association-list lemmas the component proofs share.
\<close>

named_theorems js_simps "evaluation rules for the JavaScript built-ins of the model"
named_theorems handler_simps "evaluation rules for the request handlers"

section \<open>Characters\<close>

text \<open>The characters that string literals of the model cannot spell directly.\<close>

abbreviation nl :: char where "nl \<equiv> CHR 0x0A"
abbreviation dquote :: char where "dquote \<equiv> CHR 0x22"
abbreviation squote :: char where "squote \<equiv> CHR 0x27"
abbreviation bslash :: char where "bslash \<equiv> CHR 0x5C"

section \<open>Joining strings with a separator\<close>

text \<open>\<open>join_with sep xs\<close> is JavaScript's \<open>xs.join(sep)\<close> on a list of strings.\<close>

fun join_with :: "'a list \<Rightarrow> 'a list list \<Rightarrow> 'a list" where
  "join_with sep [] = []"
| "join_with sep [x] = x"
| "join_with sep (x # y # ys) = x @ sep @ join_with sep (y # ys)"

lemma join_with_Cons [simp]:
  "join_with sep (x # xs) = (if xs = [] then x else x @ sep @ join_with sep xs)"
  by (cases xs) simp_all

declare join_with.simps(3) [simp del]

lemma length_join_with:
  "length (join_with sep xs) = sum_list (map length xs) + (length xs - 1) * length sep"
proof (induction xs)
  case (Cons x xs)
  then show ?case
    by (cases xs) (simp_all add: algebra_simps)
qed simp

lemma set_join_with:
  "set (join_with sep xs) \<subseteq> set sep \<union> \<Union> (set ` set xs)"
  by (induction xs) auto

section \<open>Permutations\<close>

text \<open>A reordering of a list keeps its sums and whether its keys are distinct.\<close>

lemma sum_list_map_perm:
  "mset xs = mset ys \<Longrightarrow> sum_list (map (f :: 'a \<Rightarrow> 'b :: comm_monoid_add) xs) = sum_list (map f ys)"
proof -
  assume "mset xs = mset ys"
  then have "mset (map f xs) = mset (map f ys)"
    by simp
  then show ?thesis
    by (metis sum_mset_sum_list)
qed

lemma distinct_map_perm: "mset xs = mset ys \<Longrightarrow> distinct (map f xs) = distinct (map f ys)"
  by (rule mset_eq_imp_distinct_iff) simp

end
