(* ===== verification/JsValue.thy ===== *)
theory JsValue
  imports Prelude
begin

text \<open>
  The JavaScript values that flow through the server: the parsed JSON
  arguments of a tool call, the parsed JSON bodies the Vault client resolves
  with, and the \<open>undefined\<close> a missing property reads as. The theory also
  holds the three built-in conversions the handlers of \<open>src/src/index.ts\<close>
  rely on: \<open>String(v)\<close> and template-literal interpolation (ECMAScript
  ToString), property reads \<open>v.k\<close> with the TypeError they raise on
  \<open>undefined\<close> and \<open>null\<close>, and object destructuring
  \<open>const {k} = v\<close>.

  Numbers are the integer-valued JavaScript numbers (the values Vault and
  the MCP client exchange in practice); strings are sequences of code units
  below 256 (Isabelle's \<open>char\<close>).
\<close>

section \<open>Values\<close>

text \<open>
  An object is the list of its own properties in creation order. Objects
  built by \<open>JSON.parse\<close> and by object literals have distinct keys; the
  predicate \<open>keys_distinct\<close> below says so.
\<close>

datatype jsval =
    JUndefined
  | JNull
  | JBool bool
  | JNum int
  | JStr string
  | JArr "jsval list"
  | JObj "(string \<times> jsval) list"

text \<open>A thrown value: an \<open>Error\<close> object with its message, or any other value.\<close>

datatype thrown =
    ErrorObj string
  | ThrownVal jsval

fun keys_distinct :: "jsval \<Rightarrow> bool" where
  "keys_distinct (JArr vs) = (\<forall>v \<in> set vs. keys_distinct v)"
| "keys_distinct (JObj kvs) =
     (distinct (map fst kvs) \<and> (\<forall>kv \<in> set kvs. keys_distinct (snd kv)))"
| "keys_distinct _ = True"

section \<open>Number to string\<close>

definition digit_char :: "nat \<Rightarrow> char" where
  "digit_char d = char_of (48 + d)"

fun nat_digits :: "nat \<Rightarrow> string" where
  "nat_digits n = (if n < 10 then [digit_char n] else nat_digits (n div 10) @ [digit_char (n mod 10)])"

declare nat_digits.simps [simp del]

text \<open>Number::toString on an integer value: a minus sign, then the decimal digits.\<close>

definition number_to_string :: "int \<Rightarrow> string" where
  "number_to_string i =
     (if i < 0 then CHR ''-'' # nat_digits (nat (- i)) else nat_digits (nat i))"

section \<open>ToString\<close>

text \<open>
  ECMAScript ToString, as \<open>String(v)\<close> and \<open>`${v}`\<close> apply it. An array
  converts through \<open>Array.prototype.join(",")\<close>, which writes the empty
  string for \<open>undefined\<close> and \<open>null\<close> elements; a plain object through
  \<open>Object.prototype.toString\<close>.
\<close>

fun js_to_string :: "jsval \<Rightarrow> string" where
  "js_to_string JUndefined = ''undefined''"
| "js_to_string JNull = ''null''"
| "js_to_string (JBool b) = (if b then ''true'' else ''false'')"
| "js_to_string (JNum i) = number_to_string i"
| "js_to_string (JStr s) = s"
| "js_to_string (JArr vs) =
     join_with '','' (map (\<lambda>v. if v = JUndefined \<or> v = JNull then [] else js_to_string v) vs)"
| "js_to_string (JObj kvs) = ''[object Object]''"

section \<open>Property reads\<close>

text \<open>\<open>obj[k]\<close> on an object's own properties; a missing key reads as \<open>undefined\<close>.\<close>

definition obj_get :: "(string \<times> jsval) list \<Rightarrow> string \<Rightarrow> jsval" where
  "obj_get kvs k = (case map_of kvs k of None \<Rightarrow> JUndefined | Some v \<Rightarrow> v)"

text \<open>
  \<open>v.k\<close> for a key \<open>k\<close> that no built-in prototype defines (the handlers read
  \<open>data\<close> and \<open>path\<close>): V8's TypeError on \<open>undefined\<close> and \<open>null\<close>,
  \<open>undefined\<close> on the other primitives and on arrays.
\<close>

definition read_error :: "string \<Rightarrow> string \<Rightarrow> string" where
  "read_error what k = ''Cannot read properties of '' @ what @ '' (reading '' @ [squote] @ k @ [squote] @ '')''"

fun get_member :: "jsval \<Rightarrow> string \<Rightarrow> thrown + jsval" where
  "get_member JUndefined k = Inl (ErrorObj (read_error ''undefined'' k))"
| "get_member JNull k = Inl (ErrorObj (read_error ''null'' k))"
| "get_member (JObj kvs) k = Inr (obj_get kvs k)"
| "get_member _ k = Inr JUndefined"

text \<open>
  \<open>const {k} = v\<close>, where \<open>v\<close> is a tool call's \<open>arguments\<close>: the MCP SDK
  hands the handler either an object (\<open>Some kvs\<close>) or \<open>undefined\<close>
  (\<open>None\<close>, the field is optional in the request schema).
\<close>

definition destructure_error :: "string \<Rightarrow> string \<Rightarrow> string" where
  "destructure_error k var =
     ''Cannot destructure property '' @ [squote] @ k @ [squote] @ '' of '' @ [squote] @ var @ [squote]
       @ '' as it is undefined.''"

definition destructure :: "(string \<times> jsval) list option \<Rightarrow> string \<Rightarrow> thrown + jsval" where
  "destructure a k =
     (case a of None \<Rightarrow> Inl (ErrorObj (destructure_error k ''args'')) | Some kvs \<Rightarrow> Inr (obj_get kvs k))"

end
