(* ===== verification/JsonStringify.thy ===== *)
theory JsonStringify
  imports JsValue
begin

text \<open>
  \<open>JSON.stringify(v, null, 2)\<close>, the serialiser every successful tool call
  of \<open>src/src/index.ts\<close> renders its payload with (lines 126, 140, 153).
  The definitions follow ECMA-262's SerializeJSONProperty,
  SerializeJSONObject, SerializeJSONArray and QuoteJSONString with the gap
  of two spaces that the space argument \<open>2\<close> selects, and the order in
  which OrdinaryOwnPropertyKeys enumerates an object's keys: array-index
  keys first in ascending numeric order, then the other keys in creation
  order. No \<open>replacer\<close> is given and parsed JSON carries no \<open>toJSON\<close>
  methods, so neither is modelled.
\<close>

section \<open>QuoteJSONString\<close>

definition json_gap :: string where
  "json_gap = ''  ''"

definition hex_digit :: "nat \<Rightarrow> char" where
  "hex_digit d = (if d < 10 then char_of (48 + d) else char_of (87 + d))"

text \<open>UnicodeEscape: \<open>\u\<close> and four lowercase hexadecimal digits.\<close>

definition unicode_escape :: "char \<Rightarrow> string" where
  "unicode_escape c =
     [bslash, CHR ''u'', CHR ''0'', CHR ''0'', hex_digit (of_char c div 16), hex_digit (of_char c mod 16)]"

definition json_escape_char :: "char \<Rightarrow> string" where
  "json_escape_char c =
     (if c = CHR 0x08 then [bslash, CHR ''b'']
      else if c = CHR 0x09 then [bslash, CHR ''t'']
      else if c = CHR 0x0A then [bslash, CHR ''n'']
      else if c = CHR 0x0C then [bslash, CHR ''f'']
      else if c = CHR 0x0D then [bslash, CHR ''r'']
      else if c = dquote then [bslash, dquote]
      else if c = bslash then [bslash, bslash]
      else if of_char c < (32::nat) then unicode_escape c
      else [c])"

definition quote_json_string :: "string \<Rightarrow> string" where
  "quote_json_string s = dquote # concat (map json_escape_char s) @ [dquote]"

section \<open>Key enumeration order\<close>

definition is_digit_char :: "char \<Rightarrow> bool" where
  "is_digit_char c \<longleftrightarrow> 48 \<le> (of_char c :: nat) \<and> (of_char c :: nat) \<le> 57"

definition digits_value :: "string \<Rightarrow> nat" where
  "digits_value s = foldl (\<lambda>n c. 10 * n + (of_char c - 48)) 0 s"

text \<open>
  An array index is the canonical decimal string of an integer below
  \<open>2^32 - 1\<close>: digits only, no leading zero except for \<open>"0"\<close> itself.
\<close>

definition is_array_index :: "string \<Rightarrow> bool" where
  "is_array_index s \<longleftrightarrow>
     s \<noteq> [] \<and> list_all is_digit_char s \<and> (hd s = CHR ''0'' \<longrightarrow> s = ''0'')
     \<and> digits_value s < 2 ^ 32 - 1"

definition own_keys_order :: "(string \<times> 'a) list \<Rightarrow> (string \<times> 'a) list" where
  "own_keys_order kvs =
     sort_key (\<lambda>kv. digits_value (fst kv)) (filter (\<lambda>kv. is_array_index (fst kv)) kvs)
     @ filter (\<lambda>kv. \<not> is_array_index (fst kv)) kvs"

lemma mset_own_keys_order [simp]: "mset (own_keys_order kvs) = mset kvs"
  by (simp add: own_keys_order_def)

lemma set_own_keys_order [simp]: "set (own_keys_order kvs) = set kvs"
  by (metis mset_own_keys_order set_mset_mset)

section \<open>SerializeJSONProperty\<close>

text \<open>
  The bracketed layout shared by objects and arrays: empty brackets for no
  parts, otherwise each part on its own line at the inner indentation and
  the closing bracket at the outer one (\<open>stepback\<close>).
\<close>

definition ser_wrap :: "char \<Rightarrow> char \<Rightarrow> string \<Rightarrow> string list \<Rightarrow> string" where
  "ser_wrap opn cls stepback parts =
     (if parts = [] then [opn, cls]
      else [opn, nl] @ stepback @ json_gap
           @ join_with ([CHR '','', nl] @ stepback @ json_gap) parts
           @ [nl] @ stepback @ [cls])"

lemma size_snd_less_JObj: "kv \<in> set kvs \<Longrightarrow> size (snd kv) < size (JObj kvs)"
  by (induction kvs) auto

lemma size_less_JArr: "v \<in> set vs \<Longrightarrow> size v < size (JArr vs)"
  by (induction vs) auto

text \<open>
  \<open>ser indent v\<close> is SerializeJSONProperty at the current indentation:
  \<open>None\<close> is the \<open>undefined\<close> it returns for \<open>undefined\<close>. An
  \<open>undefined\<close> array element is written \<open>null\<close>; an object property whose
  value is \<open>undefined\<close> is left out.
\<close>

function ser :: "string \<Rightarrow> jsval \<Rightarrow> string option" where
  "ser ind JUndefined = None"
| "ser ind JNull = Some ''null''"
| "ser ind (JBool b) = Some (if b then ''true'' else ''false'')"
| "ser ind (JNum i) = Some (number_to_string i)"
| "ser ind (JStr s) = Some (quote_json_string s)"
| "ser ind (JArr vs) =
     Some (ser_wrap CHR ''['' CHR '']'' ind
       (map (\<lambda>v. case ser (ind @ json_gap) v of None \<Rightarrow> ''null'' | Some t \<Rightarrow> t) vs))"
| "ser ind (JObj kvs) =
     Some (ser_wrap CHR ''{'' CHR ''}'' ind
       (concat (map (\<lambda>kv. case ser (ind @ json_gap) (snd kv) of
                            None \<Rightarrow> []
                          | Some t \<Rightarrow> [quote_json_string (fst kv) @ '': '' @ t])
                 (own_keys_order kvs))))"
  by pat_completeness auto
termination
  by (relation "measure (\<lambda>(ind, v). size v)")
     (auto dest: size_less_JArr size_snd_less_JObj)

text \<open>\<open>JSON.stringify(v, null, 2)\<close>; \<open>None\<close> is the \<open>undefined\<close> it returns.\<close>

definition json_stringify :: "jsval \<Rightarrow> string option" where
  "json_stringify v = ser [] v"

lemma ser_None_iff: "ser ind v = None \<longleftrightarrow> v = JUndefined"
  by (cases v) simp_all

section \<open>Properties of the serialiser\<close>

text \<open>\<open>JSON.stringify\<close> returns \<open>undefined\<close> exactly for \<open>undefined\<close>.\<close>

lemma json_stringify_None_iff: "json_stringify v = None \<longleftrightarrow> v = JUndefined"
  by (simp add: json_stringify_def ser_None_iff)

text \<open>A character that may stand in the serialiser's output.\<close>

definition printable :: "char \<Rightarrow> bool" where
  "printable c \<longleftrightarrow> c = nl \<or> 32 \<le> (of_char c :: nat)"

lemma printable_escape: "c' \<in> set (json_escape_char c) \<Longrightarrow> 32 \<le> (of_char c' :: nat)"
  by (auto simp: json_escape_char_def unicode_escape_def hex_digit_def split: if_splits)

lemma printable_quote: "c \<in> set (quote_json_string s) \<Longrightarrow> printable c"
  by (auto simp: quote_json_string_def printable_def dest: printable_escape)

lemma digit_char_printable: "d < 10 \<Longrightarrow> printable (digit_char d)"
  by (simp add: digit_char_def printable_def)

lemma nat_digits_printable: "c \<in> set (nat_digits n) \<Longrightarrow> printable c"
proof (induction n rule: nat_digits.induct)
  case (1 n)
  then show ?case
    by (subst (asm) nat_digits.simps) (auto split: if_splits intro: digit_char_printable)
qed

lemma number_printable: "c \<in> set (number_to_string i) \<Longrightarrow> printable c"
  by (auto simp: number_to_string_def printable_def dest: nat_digits_printable split: if_splits)

lemma set_ser_wrap:
  "set (ser_wrap o1 o2 ind ps) \<subseteq> {o1, o2, nl, CHR '','', CHR '' ''} \<union> set ind \<union> \<Union> (set ` set ps)"
proof -
  have "set (join_with ([CHR '','', nl] @ ind @ json_gap) ps)
          \<subseteq> set ([CHR '','', nl] @ ind @ json_gap) \<union> \<Union> (set ` set ps)"
    by (rule set_join_with)
  then show ?thesis
    by (auto simp: ser_wrap_def json_gap_def)
qed

lemma printable_basic [simp]:
  "printable nl" "printable (CHR '','')" "printable (CHR '' '')" "printable (CHR ''['')"
  "printable (CHR '']'')" "printable (CHR ''{'')" "printable (CHR ''}'')" "printable (CHR '':'')"
  by (simp_all add: printable_def)

lemma ser_wrap_printable:
  assumes "\<forall>c \<in> set ind. printable c" and "\<forall>p \<in> set ps. \<forall>c \<in> set p. printable c"
    and "printable o1" and "printable o2"
    and "c \<in> set (ser_wrap o1 o2 ind ps)"
  shows "printable c"
proof -
  from assms(5) set_ser_wrap [of o1 o2 ind ps]
  have "c \<in> {o1, o2, nl, CHR '','', CHR '' ''} \<or> c \<in> set ind \<or> (\<exists>p \<in> set ps. c \<in> set p)"
    by blast
  with assms(1-4) show ?thesis by auto
qed

lemma printable_gap: "\<forall>c \<in> set ind. printable c \<Longrightarrow> \<forall>c \<in> set (ind @ json_gap). printable c"
  by (auto simp: json_gap_def)

lemma printable_literal: "c \<in> set ''null'' \<or> c \<in> set ''true'' \<or> c \<in> set ''false'' \<or> c \<in> set '': ''
    \<Longrightarrow> printable c"
  by (auto simp: printable_def)

lemma ser_printable:
  "ser ind v = Some t \<Longrightarrow> \<forall>c \<in> set ind. printable c \<Longrightarrow> c \<in> set t \<Longrightarrow> printable c"
proof (induction ind v arbitrary: t c rule: ser.induct)
  case (1 ind)
  then show ?case by simp
next
  case (2 ind)
  then show ?case by (simp add: printable_literal)
next
  case (3 ind b)
  then show ?case by (simp add: printable_literal split: if_splits)
next
  case (4 ind i)
  then show ?case by (auto dest: number_printable)
next
  case (5 ind s)
  then show ?case by (auto dest: printable_quote)
next
  case (6 ind vs)
  let ?f = "\<lambda>v. case ser (ind @ json_gap) v of None \<Rightarrow> ''null'' | Some t \<Rightarrow> t"
  have parts: "\<forall>p \<in> set (map ?f vs). \<forall>c \<in> set p. printable c"
  proof (intro ballI)
    fix p c assume p: "p \<in> set (map ?f vs)" and c: "c \<in> set p"
    from p obtain v where v: "v \<in> set vs" and pv: "p = ?f v" by auto
    show "printable c"
    proof (cases "ser (ind @ json_gap) v")
      case None
      with c pv show ?thesis by (simp add: printable_literal)
    next
      case (Some t')
      with c pv have "c \<in> set t'" by simp
      from "6.IH" [OF v Some printable_gap [OF "6.prems"(2)] this] show ?thesis .
    qed
  qed
  from "6.prems"(1,3) have "c \<in> set (ser_wrap CHR ''['' CHR '']'' ind (map ?f vs))" by simp
  then show ?case
    by (rule ser_wrap_printable [OF "6.prems"(2) parts printable_basic(4,5)])
next
  case (7 ind kvs)
  let ?g = "\<lambda>kv. case ser (ind @ json_gap) (snd kv) of
                    None \<Rightarrow> [] | Some t \<Rightarrow> [quote_json_string (fst kv) @ '': '' @ t]"
  have parts: "\<forall>p \<in> set (concat (map ?g (own_keys_order kvs))). \<forall>c \<in> set p. printable c"
  proof (intro ballI)
    fix p c assume p: "p \<in> set (concat (map ?g (own_keys_order kvs)))" and c: "c \<in> set p"
    from p obtain kv where kv: "kv \<in> set (own_keys_order kvs)" and pkv: "p \<in> set (?g kv)" by auto
    show "printable c"
    proof (cases "ser (ind @ json_gap) (snd kv)")
      case None
      with pkv show ?thesis by simp
    next
      case (Some t')
      with pkv c have "c \<in> set (quote_json_string (fst kv)) \<or> c \<in> set '': '' \<or> c \<in> set t'" by auto
      moreover have "c \<in> set t' \<Longrightarrow> printable c"
        using "7.IH" [OF kv Some printable_gap [OF "7.prems"(2)]] .
      ultimately show ?thesis by (auto dest: printable_quote printable_literal)
    qed
  qed
  from "7.prems"(1,3) have "c \<in> set (ser_wrap CHR ''{'' CHR ''}'' ind (concat (map ?g (own_keys_order kvs))))"
    by simp
  then show ?case
    by (rule ser_wrap_printable [OF "7.prems"(2) parts printable_basic(6,7)])
qed

text \<open>
  The text \<open>JSON.stringify(v, null, 2)\<close> produces holds no control
  character other than the newlines of its layout.
\<close>

lemma json_output_printable:
  assumes "json_stringify v = Some t"
  shows "\<forall>c \<in> set t. c = nl \<or> 32 \<le> (of_char c :: nat)"
  using ser_printable [of "[]" v t] assms by (auto simp: json_stringify_def printable_def)

end
