(* ===== verification/JsonParse.thy ===== *)
theory JsonParse
  imports JsonStringify
begin

text \<open>
  A reference reader for the text the handlers return: \<open>JSON.parse\<close>
  (ECMA-262, RFC 8259 grammar) on the values of the model, a parser with
  fuel written as a mutual \<open>fun\<close> over values, array elements and object
  members. It is not code of the repository: it is the client's side of
  the contract, the function that reads what \<open>JSON.stringify(body, null, 2)\<close>
  wrote (\<open>src/src/index.ts\<close> lines 127, 153). \<open>parse_stringify\<close> shows what a
  client reads back: the body with \<open>undefined\<close> properties dropped,
  \<open>undefined\<close> elements as \<open>null\<close> and keys in enumeration order
  (\<open>canon\<close>); the root theory states it for the handlers' replies.
  The fuel \<open>json_parse\<close> gives is the length of its input, which bounds
  what the text of any value needs (\<open>fuel_le_length\<close>).
\<close>

section \<open>Lexical level\<close>

definition is_ws :: "char \<Rightarrow> bool" where
  "is_ws c \<longleftrightarrow> c = CHR '' '' \<or> c = CHR 0x09 \<or> c = nl \<or> c = CHR 0x0D"

definition skip_ws :: "string \<Rightarrow> string" where
  "skip_ws s = dropWhile is_ws s"

definition hex_value :: "char \<Rightarrow> nat option" where
  "hex_value c =
     (let n = of_char c in
      if 48 \<le> n \<and> n \<le> 57 then Some (n - 48)
      else if 97 \<le> n \<and> n \<le> 102 then Some (n - 87)
      else if 65 \<le> n \<and> n \<le> 70 then Some (n - 55)
      else None)"

definition hex4 :: "char \<Rightarrow> char \<Rightarrow> char \<Rightarrow> char \<Rightarrow> nat option" where
  "hex4 a b c d =
     (case (hex_value a, hex_value b, hex_value c, hex_value d) of
        (Some w, Some x, Some y, Some z) \<Rightarrow> Some (((w * 16 + x) * 16 + y) * 16 + z)
      | _ \<Rightarrow> None)"

definition simple_unescape :: "char \<Rightarrow> char option" where
  "simple_unescape e =
     (if e = dquote then Some dquote
      else if e = bslash then Some bslash
      else if e = CHR ''/'' then Some (CHR ''/'')
      else if e = CHR ''b'' then Some (CHR 0x08)
      else if e = CHR ''f'' then Some (CHR 0x0C)
      else if e = CHR ''n'' then Some nl
      else if e = CHR ''r'' then Some (CHR 0x0D)
      else if e = CHR ''t'' then Some (CHR 0x09)
      else None)"

definition cons_char :: "char \<Rightarrow> (string \<times> string) option \<Rightarrow> (string \<times> string) option" where
  "cons_char d r = map_option (\<lambda>(s, rest). (d # s, rest)) r"

text \<open>The characters of a string literal after its opening quote, up to the closing one.\<close>

fun parse_chars :: "string \<Rightarrow> (string \<times> string) option" where
  "parse_chars [] = None"
| "parse_chars (c # cs) =
     (if c = dquote then Some ([], cs)
      else if c = bslash then
        (case cs of
           [] \<Rightarrow> None
         | e # es \<Rightarrow>
             if e = CHR ''u'' then
               (case es of
                  a # b # x # y # r \<Rightarrow>
                    (case hex4 a b x y of
                       Some n \<Rightarrow> if n < 256 then cons_char (char_of n) (parse_chars r) else None
                     | None \<Rightarrow> None)
                | _ \<Rightarrow> None)
             else
               (case simple_unescape e of
                  Some d \<Rightarrow> cons_char d (parse_chars es)
                | None \<Rightarrow> None))
      else if of_char c < (32::nat) then None
      else cons_char c (parse_chars cs))"

text \<open>
  A number is an optional minus sign and an unsigned part: digits without a
  leading zero. A fraction or an exponent is refused here, since the values
  of the model are integers.
\<close>

definition parse_unsigned :: "string \<Rightarrow> (nat \<times> string) option" where
  "parse_unsigned s =
     (let ds = takeWhile is_digit_char s;
          rest = dropWhile is_digit_char s
      in if ds = [] \<or> (hd ds = CHR ''0'' \<and> length ds > 1) then None
         else if rest \<noteq> [] \<and> (hd rest = CHR ''.'' \<or> hd rest = CHR ''e'' \<or> hd rest = CHR ''E'') then None
         else Some (digits_value ds, rest))"

definition parse_number :: "string \<Rightarrow> (int \<times> string) option" where
  "parse_number s =
     (case s of
        c # cs \<Rightarrow>
          if c = CHR ''-'' then map_option (\<lambda>(n, r). (- int n, r)) (parse_unsigned cs)
          else map_option (\<lambda>(n, r). (int n, r)) (parse_unsigned s)
      | [] \<Rightarrow> None)"

section \<open>Values\<close>

text \<open>
  Building the parsed object: CreateDataProperty in text order, so a
  repeated key keeps its first position and takes the last value.
\<close>

definition obj_put :: "(string \<times> jsval) list \<Rightarrow> string \<times> jsval \<Rightarrow> (string \<times> jsval) list" where
  "obj_put kvs kv =
     (if fst kv \<in> fst ` set kvs
      then map (\<lambda>(k', v'). if k' = fst kv then (k', snd kv) else (k', v')) kvs
      else kvs @ [kv])"

definition build_object :: "(string \<times> jsval) list \<Rightarrow> (string \<times> jsval) list" where
  "build_object kvs = foldl obj_put [] kvs"

text \<open>
  The parser of a value, of the elements of an array after its first
  non-blank character, and of the members of an object likewise. Each
  call spends one unit of \<open>fuel\<close>; \<open>json_parse\<close> below gives the
  length of the text, which is always enough (\<open>fuel_le_length\<close>).
\<close>

fun parse_value :: "nat \<Rightarrow> string \<Rightarrow> (jsval \<times> string) option"
and parse_elems :: "nat \<Rightarrow> string \<Rightarrow> (jsval list \<times> string) option"
and parse_members :: "nat \<Rightarrow> string \<Rightarrow> ((string \<times> jsval) list \<times> string) option" where
  "parse_value 0 s = None"
| "parse_value (Suc n) s =
     (case skip_ws s of
        [] \<Rightarrow> None
      | c # cs \<Rightarrow>
          if c = CHR ''n'' then (if take 3 cs = ''ull'' then Some (JNull, drop 3 cs) else None)
          else if c = CHR ''t'' then (if take 3 cs = ''rue'' then Some (JBool True, drop 3 cs) else None)
          else if c = CHR ''f'' then (if take 4 cs = ''alse'' then Some (JBool False, drop 4 cs) else None)
          else if c = dquote then map_option (\<lambda>(str, r). (JStr str, r)) (parse_chars cs)
          else if c = CHR ''['' then
            (case skip_ws cs of
               [] \<Rightarrow> None
             | d # ds \<Rightarrow>
                 if d = CHR '']'' then Some (JArr [], ds)
                 else map_option (\<lambda>(vs, r). (JArr vs, r)) (parse_elems n (d # ds)))
          else if c = CHR ''{'' then
            (case skip_ws cs of
               [] \<Rightarrow> None
             | d # ds \<Rightarrow>
                 if d = CHR ''}'' then Some (JObj [], ds)
                 else map_option (\<lambda>(kvs, r). (JObj (build_object kvs), r)) (parse_members n (d # ds)))
          else map_option (\<lambda>(i, r). (JNum i, r)) (parse_number (c # cs)))"
| "parse_elems 0 s = None"
| "parse_elems (Suc n) s =
     (case parse_value n s of
        None \<Rightarrow> None
      | Some (v, r) \<Rightarrow>
          (case skip_ws r of
             [] \<Rightarrow> None
           | d # ds \<Rightarrow>
               if d = CHR '','' then map_option (\<lambda>(vs, r'). (v # vs, r')) (parse_elems n ds)
               else if d = CHR '']'' then Some ([v], ds)
               else None))"
| "parse_members 0 s = None"
| "parse_members (Suc n) s =
     (case skip_ws s of
        [] \<Rightarrow> None
      | d # ds \<Rightarrow>
          if d \<noteq> dquote then None
          else
            (case parse_chars ds of
               None \<Rightarrow> None
             | Some (k, r) \<Rightarrow>
                 (case skip_ws r of
                    [] \<Rightarrow> None
                  | e # es \<Rightarrow>
                      if e \<noteq> CHR '':'' then None
                      else
                        (case parse_value n es of
                           None \<Rightarrow> None
                         | Some (v, r2) \<Rightarrow>
                             (case skip_ws r2 of
                                [] \<Rightarrow> None
                              | f # fs \<Rightarrow>
                                  if f = CHR '','' then
                                    map_option (\<lambda>(kvs, r3). ((k, v) # kvs, r3)) (parse_members n fs)
                                  else if f = CHR ''}'' then Some ([(k, v)], fs)
                                  else None)))))"

text \<open>\<open>JSON.parse(s)\<close>: one value, then nothing but white space.\<close>

definition json_parse :: "string \<Rightarrow> jsval option" where
  "json_parse s =
     (case parse_value (length s) s of
        None \<Rightarrow> None
      | Some (v, r) \<Rightarrow> if skip_ws r = [] then Some v else None)"

section \<open>What a serialised value reads back as\<close>

text \<open>
  The value \<open>JSON.parse(JSON.stringify(v))\<close> gives back: properties whose
  value is \<open>undefined\<close> are gone, \<open>undefined\<close> array elements are
  \<open>null\<close>, and an object's keys come in the order
  \<open>JSON.stringify\<close> enumerated them.
\<close>

function canon :: "jsval \<Rightarrow> jsval" where
  "canon (JArr vs) = JArr (map (\<lambda>v. if v = JUndefined then JNull else canon v) vs)"
| "canon (JObj kvs) =
     JObj (map (\<lambda>kv. (fst kv, canon (snd kv))) (filter (\<lambda>kv. snd kv \<noteq> JUndefined) (own_keys_order kvs)))"
| "canon JUndefined = JUndefined"
| "canon JNull = JNull"
| "canon (JBool b) = JBool b"
| "canon (JNum i) = JNum i"
| "canon (JStr s) = JStr s"
  by pat_completeness auto
termination
  by (relation "measure size") (auto dest: size_less_JArr size_snd_less_JObj)

text \<open>The fuel the parser spends on the text of a value.\<close>

function fuel :: "jsval \<Rightarrow> nat" where
  "fuel (JArr vs) = Suc (sum_list (map fuel vs) + length vs)"
| "fuel (JObj kvs) =
     Suc (sum_list (map (\<lambda>kv. if snd kv = JUndefined then 0 else Suc (fuel (snd kv))) kvs))"
| "fuel JUndefined = 1"
| "fuel JNull = 1"
| "fuel (JBool b) = 1"
| "fuel (JNum i) = 1"
| "fuel (JStr s) = 1"
  by pat_completeness auto
termination
  by (relation "measure size") (auto dest: size_less_JArr size_snd_less_JObj)

section \<open>Strings: escaping is undone\<close>

lemma hex_value_hex_digit: "d < 16 \<Longrightarrow> hex_value (hex_digit d) = Some d"
  by (auto simp: hex_value_def hex_digit_def Let_def)

lemma hex_value_zero: "hex_value (CHR ''0'') = Some 0"
  by (simp add: hex_value_def)

lemma parse_chars_escape:
  "parse_chars (json_escape_char c @ more) = cons_char c (parse_chars more)"
proof -
  consider (b) "c = CHR 0x08" | (t) "c = CHR 0x09" | (n) "c = CHR 0x0A" | (f) "c = CHR 0x0C"
    | (r) "c = CHR 0x0D" | (q) "c = dquote" | (s) "c = bslash"
    | (u) "c \<notin> {CHR 0x08, CHR 0x09, CHR 0x0A, CHR 0x0C, CHR 0x0D, dquote, bslash}" "of_char c < (32::nat)"
    | (p) "c \<notin> {CHR 0x08, CHR 0x09, CHR 0x0A, CHR 0x0C, CHR 0x0D, dquote, bslash}" "\<not> of_char c < (32::nat)"
    by blast
  then show ?thesis
  proof cases
    case u
    have lt: "of_char c div 16 < (16::nat)" "of_char c mod 16 < (16::nat)"
      using u(2) by simp_all
    have "hex4 (CHR ''0'') (CHR ''0'') (hex_digit (of_char c div 16)) (hex_digit (of_char c mod 16))
            = Some (of_char c)"
      using lt by (simp add: hex4_def hex_value_hex_digit hex_value_zero)
    with u show ?thesis
      by (simp add: json_escape_char_def unicode_escape_def)
  next
    case p
    then show ?thesis by (auto simp: json_escape_char_def)
  qed (simp_all add: json_escape_char_def simple_unescape_def)
qed

lemma parse_chars_quoted:
  "parse_chars (concat (map json_escape_char s) @ dquote # rest) = Some (s, rest)"
  by (induction s) (simp_all add: parse_chars_escape cons_char_def)

section \<open>Numbers: the decimal text reads back\<close>

definition num_end :: "string \<Rightarrow> bool" where
  "num_end rest =
     (case rest of [] \<Rightarrow> True
      | c # _ \<Rightarrow> \<not> is_digit_char c \<and> c \<noteq> CHR ''.'' \<and> c \<noteq> CHR ''e'' \<and> c \<noteq> CHR ''E'')"

lemma of_char_digit_char: "d < 10 \<Longrightarrow> of_char (digit_char d) = 48 + d"
  by (simp add: digit_char_def)

lemma digits_value_snoc: "digits_value (xs @ [c]) = 10 * digits_value xs + (of_char c - 48)"
  by (simp add: digits_value_def)

lemma nat_digits_value: "digits_value (nat_digits n) = n"
proof (induction n rule: nat_digits.induct)
  case (1 n)
  then show ?case
    by (subst nat_digits.simps) (simp add: digits_value_snoc of_char_digit_char digits_value_def)
qed

lemma nat_digits_digits: "c \<in> set (nat_digits n) \<Longrightarrow> is_digit_char c"
proof (induction n rule: nat_digits.induct)
  case (1 n)
  then show ?case
    by (subst (asm) nat_digits.simps)
       (auto simp: is_digit_char_def of_char_digit_char split: if_splits)
qed

lemma nat_digits_not_Nil [simp]: "nat_digits n \<noteq> []"
  by (subst nat_digits.simps) simp

lemma nat_digits_leading: "0 < n \<Longrightarrow> hd (nat_digits n) \<noteq> CHR ''0''"
proof (induction n rule: nat_digits.induct)
  case (1 n)
  show ?case
  proof (cases "n < 10")
    case True
    then have "of_char (digit_char n) \<noteq> (of_char (CHR ''0'') :: nat)"
      using 1(2) by (simp add: of_char_digit_char)
    with True show ?thesis by (subst nat_digits.simps) auto
  next
    case False
    then show ?thesis using 1 by (subst nat_digits.simps) simp
  qed
qed

lemma nat_digits_zero: "nat_digits 0 = [CHR ''0'']"
proof -
  have "of_char (char_of (48::nat)) = (of_char (CHR ''0'') :: nat)"
    by simp
  then have "char_of (48::nat) = CHR ''0''"
    by (metis of_char_eq_iff)
  then show ?thesis
    by (simp add: nat_digits.simps digit_char_def)
qed

lemma split_digits:
  assumes "\<forall>c \<in> set ds. is_digit_char c" "num_end rest"
  shows "takeWhile is_digit_char (ds @ rest) = ds" "dropWhile is_digit_char (ds @ rest) = rest"
  using assms by (auto simp: num_end_def split: list.splits)

lemma canonical_digits: "\<not> (hd (nat_digits n) = CHR ''0'' \<and> 1 < length (nat_digits n))"
  by (cases n) (simp_all add: nat_digits_zero nat_digits_leading)

lemma parse_unsigned_digits:
  assumes "num_end rest"
  shows "parse_unsigned (nat_digits n @ rest) = Some (n, rest)"
proof -
  have d: "\<forall>c \<in> set (nat_digits n). is_digit_char c"
    using nat_digits_digits by blast
  have e: "rest = [] \<or> hd rest \<noteq> CHR ''.'' \<and> hd rest \<noteq> CHR ''e'' \<and> hd rest \<noteq> CHR ''E''"
    using assms by (auto simp: num_end_def split: list.splits)
  show ?thesis
    using split_digits[OF d assms] canonical_digits[of n] e
    by (simp add: parse_unsigned_def nat_digits_value Let_def)
qed

lemma parse_number_text:
  assumes "num_end rest"
  shows "parse_number (number_to_string i @ rest) = Some (i, rest)"
proof (cases "i < 0")
  case True
  then show ?thesis
    using parse_unsigned_digits[OF assms, of "nat (- i)"]
    by (simp add: number_to_string_def parse_number_def)
next
  case False
  obtain c cs where cs: "nat_digits (nat i) = c # cs"
    by (cases "nat_digits (nat i)") auto
  have "is_digit_char c"
    using nat_digits_digits[of c "nat i"] cs by simp
  then have "c \<noteq> CHR ''-''"
    by (auto simp: is_digit_char_def)
  then show ?thesis
    using False cs parse_unsigned_digits[OF assms, of "nat i"]
    by (simp add: number_to_string_def parse_number_def)
qed

section \<open>White space and the first character of a value\<close>

abbreviation blank :: "string \<Rightarrow> bool" where
  "blank w \<equiv> set w \<subseteq> {CHR '' '', nl}"

definition delim :: "string \<Rightarrow> bool" where
  "delim rest \<longleftrightarrow> rest = [] \<or> hd rest = CHR '','' \<or> hd rest = nl"

lemma skip_ws_blank: "blank w \<Longrightarrow> skip_ws (w @ s) = skip_ws s"
  by (induction w) (auto simp: skip_ws_def is_ws_def)

lemma skip_ws_stop: "\<not> is_ws c \<Longrightarrow> skip_ws (c # s) = c # s"
  by (simp add: skip_ws_def)

lemma parse_value_blank: "blank w \<Longrightarrow> parse_value n (w @ s) = parse_value n s"
  by (cases n) (simp_all add: skip_ws_blank)

lemma delim_num_end: "delim rest \<Longrightarrow> num_end rest"
  by (auto simp: delim_def num_end_def is_digit_char_def split: list.splits)

definition starts_value :: "string \<Rightarrow> bool" where
  "starts_value t \<longleftrightarrow>
     (case t of [] \<Rightarrow> False | c # _ \<Rightarrow> \<not> is_ws c \<and> c \<noteq> CHR '']'' \<and> c \<noteq> CHR ''}'')"

lemma starts_value_append: "starts_value t \<Longrightarrow> starts_value (t @ s)"
  by (simp add: starts_value_def split: list.splits)

lemma ser_starts_value: "ser ind v = Some t \<Longrightarrow> starts_value t"
proof (cases v)
  case (JNum i)
  moreover obtain c cs where "nat_digits (nat \<bar>i\<bar>) = c # cs"
    by (cases "nat_digits (nat \<bar>i\<bar>)") auto
  moreover have "is_digit_char c"
    using nat_digits_digits calculation(2) by (metis list.set_intros(1))
  moreover assume "ser ind v = Some t"
  ultimately show ?thesis
    by (auto simp: number_to_string_def starts_value_def is_ws_def is_digit_char_def)
qed (auto simp: starts_value_def is_ws_def ser_wrap_def quote_json_string_def)

lemma parse_value_starts:
  "blank w \<Longrightarrow> starts_value t \<Longrightarrow> \<exists>c cs. skip_ws (w @ t) = c # cs \<and> t = c # cs \<and> c \<noteq> CHR '']'' \<and> c \<noteq> CHR ''}''"
  by (auto simp: skip_ws_blank skip_ws_stop starts_value_def split: list.splits)

section \<open>The elements and the members of a serialised container\<close>

lemma parse_elems_join:
  assumes "es \<noteq> []"
    and "\<And>p x f rest n. (p, x, f) \<in> set es \<Longrightarrow> delim rest \<Longrightarrow> f \<le> n \<Longrightarrow>
           parse_value n (p @ rest) = Some (x, rest)"
    and "blank w" "blank w'" "set ind \<subseteq> {CHR '' ''}"
    and "sum_list (map (\<lambda>e. snd (snd e)) es) + length es \<le> n"
  shows "parse_elems n (w @ join_with (CHR '','' # w') (map fst es) @ nl # ind @ CHR '']'' # rest)
           = Some (map (\<lambda>e. fst (snd e)) es, rest)"
  using assms
proof (induction es arbitrary: w n)
  case Nil
  then show ?case by simp
next
  case (Cons e es)
  obtain p x f where e: "e = (p, x, f)" by (cases e) auto
  obtain m where n: "n = Suc m" and m: "f + sum_list (map (\<lambda>e. snd (snd e)) es) + length es \<le> m"
    using Cons.prems(6) e by (cases n) auto
  have ind: "skip_ws (nl # ind @ s) = skip_ws s" for s
    using Cons.prems(5) skip_ws_blank[of "nl # ind" s] by auto
  show ?case
  proof (cases "es = []")
    case True
    have "parse_value m (p @ nl # ind @ CHR '']'' # rest) = Some (x, nl # ind @ CHR '']'' # rest)"
      using Cons.prems(2)[of p x f] e m by (simp add: delim_def)
    with True n show ?thesis
      using Cons.prems(3) by (simp add: e parse_value_blank ind skip_ws_stop is_ws_def)
  next
    case False
    let ?J = "join_with (CHR '','' # w') (map fst es) @ nl # ind @ CHR '']'' # rest"
    have v: "parse_value m (p @ CHR '','' # w' @ ?J) = Some (x, CHR '','' # w' @ ?J)"
      using Cons.prems(2)[of p x f] e m by (simp add: delim_def)
    have h: "\<And>p x f rest n. (p, x, f) \<in> set es \<Longrightarrow> delim rest \<Longrightarrow> f \<le> n \<Longrightarrow>
               parse_value n (p @ rest) = Some (x, rest)"
      by (rule Cons.prems(2)) auto
    have "parse_elems m (w' @ ?J) = Some (map (\<lambda>e. fst (snd e)) es, rest)"
      using Cons.IH[OF False h Cons.prems(4) Cons.prems(4) Cons.prems(5)] m by simp
    with v False n show ?thesis
      using Cons.prems(3) by (simp add: e parse_value_blank skip_ws_stop is_ws_def)
  qed
qed

definition member_text :: "string \<times> string \<times> jsval \<times> nat \<Rightarrow> string" where
  "member_text m = quote_json_string (fst m) @ '': '' @ fst (snd m)"

lemma parse_value_space: "parse_value n (CHR '' '' # s) = parse_value n s"
  using parse_value_blank[of "[CHR '' '']" n s] by simp

lemma parse_members_step:
  assumes "parse_value m (t @ X) = Some (x, X)" "blank w"
  shows "parse_members (Suc m) (w @ quote_json_string k @ '': '' @ t @ X) =
           (case skip_ws X of
              [] \<Rightarrow> None
            | f # fs \<Rightarrow>
                if f = CHR '','' then map_option (\<lambda>(kvs, r3). ((k, x) # kvs, r3)) (parse_members m fs)
                else if f = CHR ''}'' then Some ([(k, x)], fs)
                else None)"
  using assms
  by (simp add: skip_ws_blank skip_ws_stop is_ws_def quote_json_string_def parse_chars_quoted
      parse_value_space)

lemma parse_members_join:
  assumes "ms \<noteq> []"
    and "\<And>k t x f rest n. (k, t, x, f) \<in> set ms \<Longrightarrow> delim rest \<Longrightarrow> f \<le> n \<Longrightarrow>
           parse_value n (t @ rest) = Some (x, rest)"
    and "blank w" "blank w'" "set ind \<subseteq> {CHR '' ''}"
    and "sum_list (map (\<lambda>m. snd (snd (snd m))) ms) + length ms \<le> n"
  shows "parse_members n (w @ join_with (CHR '','' # w') (map member_text ms) @ nl # ind @ CHR ''}'' # rest)
           = Some (map (\<lambda>m. (fst m, fst (snd (snd m)))) ms, rest)"
  using assms
proof (induction ms arbitrary: w n)
  case Nil
  then show ?case by simp
next
  case (Cons e ms)
  obtain k t x f where e: "e = (k, t, x, f)" by (cases e) auto
  obtain m where n: "n = Suc m" and m: "f + sum_list (map (\<lambda>m. snd (snd (snd m))) ms) + length ms \<le> m"
    using Cons.prems(6) e by (cases n) auto
  have ind: "skip_ws (nl # ind @ s) = skip_ws s" for s
    using Cons.prems(5) skip_ws_blank[of "nl # ind" s] by auto
  have mt: "member_text (k, t, x, f) = quote_json_string k @ '': '' @ t"
    by (simp add: member_text_def)
  show ?case
  proof (cases "ms = []")
    case True
    let ?X = "nl # ind @ CHR ''}'' # rest"
    have v: "parse_value m (t @ ?X) = Some (x, ?X)"
      using Cons.prems(2)[of k t x f] e m by (simp add: delim_def)
    have "parse_members (Suc m) (w @ quote_json_string k @ '': '' @ t @ ?X) = Some ([(k, x)], rest)"
      using parse_members_step[OF v Cons.prems(3), of k] by (simp add: ind skip_ws_stop is_ws_def)
    with True n e show ?thesis
      by (simp add: mt del: parse_members.simps)
  next
    case False
    let ?Y = "w' @ join_with (CHR '','' # w') (map member_text ms) @ nl # ind @ CHR ''}'' # rest"
    have v: "parse_value m (t @ CHR '','' # ?Y) = Some (x, CHR '','' # ?Y)"
      using Cons.prems(2)[of k t x f] e m by (simp add: delim_def)
    have h: "\<And>k t x f rest n. (k, t, x, f) \<in> set ms \<Longrightarrow> delim rest \<Longrightarrow> f \<le> n \<Longrightarrow>
               parse_value n (t @ rest) = Some (x, rest)"
      by (rule Cons.prems(2)) auto
    have "parse_members m ?Y = Some (map (\<lambda>m. (fst m, fst (snd (snd m)))) ms, rest)"
      using Cons.IH[OF False h Cons.prems(4) Cons.prems(4) Cons.prems(5)] m by simp
    then have "parse_members (Suc m) (w @ quote_json_string k @ '': '' @ t @ CHR '','' # ?Y)
                 = Some ((k, x) # map (\<lambda>m. (fst m, fst (snd (snd m)))) ms, rest)"
      using parse_members_step[OF v Cons.prems(3), of k] by (simp add: skip_ws_stop is_ws_def)
    with False n e show ?thesis
      by (simp add: mt del: parse_members.simps)
  qed
qed

section \<open>Round trip\<close>

lemma build_object_distinct:
  "distinct (map fst (acc @ kvs)) \<Longrightarrow> foldl obj_put acc kvs = acc @ kvs"
proof (induction kvs arbitrary: acc)
  case (Cons kv kvs)
  then have "foldl obj_put acc (kv # kvs) = foldl obj_put (acc @ [kv]) kvs"
    by (auto simp: obj_put_def)
  with Cons show ?case by simp
qed simp

lemma number_head: "number_to_string i = c # cs \<Longrightarrow> c = CHR ''-'' \<or> is_digit_char c"
  by (auto simp: number_to_string_def split: if_splits intro: nat_digits_digits[of c "nat i"])

lemma parse_value_bracket:
  assumes "starts_value J" "blank w"
  shows "parse_value (Suc m) (CHR ''['' # w @ J @ X) = map_option (\<lambda>(vs, r). (JArr vs, r)) (parse_elems m (J @ X))"
proof -
  obtain c cs where "J = c # cs" "\<not> is_ws c" "c \<noteq> CHR '']''"
    using assms(1) by (auto simp: starts_value_def split: list.splits)
  with assms(2) show ?thesis
    by (simp add: skip_ws_blank skip_ws_stop is_ws_def)
qed

lemma parse_value_brace:
  assumes "starts_value J" "blank w"
  shows "parse_value (Suc m) (CHR ''{'' # w @ J @ X)
           = map_option (\<lambda>(kvs, r). (JObj (build_object kvs), r)) (parse_members m (J @ X))"
proof -
  obtain c cs where "J = c # cs" "\<not> is_ws c" "c \<noteq> CHR ''}''"
    using assms(1) by (auto simp: starts_value_def split: list.splits)
  with assms(2) show ?thesis
    by (simp add: skip_ws_blank skip_ws_stop is_ws_def)
qed

lemma parse_value_null:
  "0 < n \<Longrightarrow> parse_value n (CHR ''n'' # CHR ''u'' # CHR ''l'' # CHR ''l'' # rest) = Some (JNull, rest)"
  by (cases n) (simp_all add: skip_ws_stop is_ws_def)

lemma ser_wrap_append:
  "ps \<noteq> [] \<Longrightarrow> ser_wrap o1 o2 ind ps @ rest
     = o1 # (nl # ind @ json_gap) @ join_with (CHR '','' # nl # ind @ json_gap) ps @ nl # ind @ o2 # rest"
  by (simp add: ser_wrap_def)

lemma starts_value_join: "ps \<noteq> [] \<Longrightarrow> starts_value (hd ps) \<Longrightarrow> starts_value (join_with sep ps)"
  by (cases ps) (auto intro: starts_value_append)

lemma blank_indent: "set ind \<subseteq> {CHR '' ''} \<Longrightarrow> blank (nl # ind @ json_gap)"
  by (auto simp: json_gap_def)

lemma indent_gap: "set ind \<subseteq> {CHR '' ''} \<Longrightarrow> set (ind @ json_gap) \<subseteq> {CHR '' ''}"
  by (auto simp: json_gap_def)

lemma starts_value_element: "starts_value (case ser ind v of None \<Rightarrow> ''null'' | Some t \<Rightarrow> t)"
  by (cases "ser ind v") (auto simp: starts_value_def is_ws_def dest: ser_starts_value)

definition member_item :: "string \<Rightarrow> string \<times> jsval \<Rightarrow> string \<times> string \<times> jsval \<times> nat" where
  "member_item ind kv = (fst kv, the (ser ind (snd kv)), canon (snd kv), fuel (snd kv))"

lemma members_text:
  "concat (map (\<lambda>kv. case ser ind (snd kv) of None \<Rightarrow> [] | Some t \<Rightarrow> [quote_json_string (fst kv) @ '': '' @ t]) xs)
     = map member_text (map (member_item ind) (filter (\<lambda>kv. snd kv \<noteq> JUndefined) xs))"
  by (induction xs) (auto simp: member_item_def member_text_def ser_None_iff split: option.split)

lemma member_text_starts: "starts_value (member_text m)"
  by (simp add: member_text_def quote_json_string_def starts_value_def is_ws_def)

lemma sum_list_Suc: "sum_list (map (\<lambda>x. Suc (f x)) xs) = sum_list (map f xs) + length xs"
  by (induction xs) simp_all

lemma fuel_JObj:
  "fuel (JObj kvs) =
     Suc (sum_list (map (\<lambda>kv. Suc (fuel (snd kv))) (filter (\<lambda>kv. snd kv \<noteq> JUndefined) (own_keys_order kvs))))"
proof -
  have "sum_list (map (\<lambda>kv. Suc (fuel (snd kv))) (filter (\<lambda>kv. snd kv \<noteq> JUndefined) (own_keys_order kvs)))
          = sum_list (map (\<lambda>kv. if snd kv \<noteq> JUndefined then Suc (fuel (snd kv)) else 0) (own_keys_order kvs))"
    by (rule sum_list_map_filter')
  also have "\<dots> = sum_list (map (\<lambda>kv. if snd kv = JUndefined then 0 else Suc (fuel (snd kv))) (own_keys_order kvs))"
    by (intro arg_cong[where f = sum_list] map_cong) auto
  also have "\<dots> = sum_list (map (\<lambda>kv. if snd kv = JUndefined then 0 else Suc (fuel (snd kv))) kvs)"
    by (rule sum_list_map_perm) simp
  finally show ?thesis
    by simp
qed

lemma distinct_members:
  "distinct (map fst kvs) \<Longrightarrow>
     distinct (map fst (filter (\<lambda>kv. snd kv \<noteq> JUndefined) (own_keys_order kvs)))"
  using distinct_map_perm[of "own_keys_order kvs" kvs fst] distinct_map_filter by auto

lemma parse_ser:
  "ser ind v = Some t \<Longrightarrow> keys_distinct v \<Longrightarrow> set ind \<subseteq> {CHR '' ''} \<Longrightarrow> delim rest \<Longrightarrow>
     fuel v \<le> n \<Longrightarrow> parse_value n (t @ rest) = Some (canon v, rest)"
proof (induction ind v arbitrary: t rest n rule: ser.induct)
  case (1 ind)
  then show ?case by simp
next
  case (2 ind)
  then have "t = ''null''" by simp
  with 2(5) show ?case by (simp add: parse_value_null)
next
  case (3 ind b)
  then have "t = (if b then ''true'' else ''false'')" by simp
  with 3(5) show ?case by (cases n; cases b) (simp_all add: skip_ws_stop is_ws_def)
next
  case (4 ind i)
  obtain c cs where ncs: "number_to_string i = c # cs"
    by (cases "number_to_string i") (auto simp: number_to_string_def split: if_splits)
  have "c = CHR ''-'' \<or> is_digit_char c"
    by (rule number_head[OF ncs])
  then have "\<not> is_ws c \<and> c \<noteq> CHR ''n'' \<and> c \<noteq> CHR ''t'' \<and> c \<noteq> CHR ''f'' \<and> c \<noteq> dquote
               \<and> c \<noteq> CHR ''['' \<and> c \<noteq> CHR ''{''"
    by (auto simp: is_ws_def is_digit_char_def)
  moreover have "t = c # cs"
    using 4(1) ncs by simp
  moreover have "parse_number (c # cs @ rest) = Some (i, rest)"
    using parse_number_text[OF delim_num_end[OF 4(4)], of i] ncs by simp
  ultimately show ?case
    using 4(5) by (cases n) (simp_all add: skip_ws_stop)
next
  case (5 ind s)
  then have "t = quote_json_string s" by simp
  with 5(5) show ?case
    by (cases n) (simp_all add: quote_json_string_def skip_ws_stop is_ws_def parse_chars_quoted)
next
  case (6 ind vs)
  let ?pr = "\<lambda>v. case ser (ind @ json_gap) v of None \<Rightarrow> ''null'' | Some t \<Rightarrow> t"
  have t: "t = ser_wrap CHR ''['' CHR '']'' ind (map ?pr vs)"
    using 6(2) by simp
  obtain m where n: "n = Suc m" and m: "sum_list (map fuel vs) + length vs \<le> m"
    using 6(6) by (cases n) auto
  show ?case
  proof (cases "vs = []")
    case True
    then show ?thesis
      using t n by (simp add: ser_wrap_def skip_ws_stop is_ws_def)
  next
    case False
    define es where "es = map (\<lambda>v. (?pr v, if v = JUndefined then JNull else canon v, fuel v)) vs"
    have items: "parse_value k (p @ r) = Some (x, r)"
      if mem: "(p, x, f) \<in> set es" and d: "delim r" and le: "f \<le> k" for p x f r k
    proof -
      obtain v where "v \<in> set vs" "(p, x, f) = (?pr v, if v = JUndefined then JNull else canon v, fuel v)"
        using mem unfolding es_def set_map image_iff by blast
      then have v: "v \<in> set vs" "p = ?pr v" "x = (if v = JUndefined then JNull else canon v)" "f = fuel v"
        by simp_all
      show ?thesis
      proof (cases "v = JUndefined")
        case True
        then show ?thesis using v le by (simp add: parse_value_null)
      next
        case False
        then obtain p' where p': "ser (ind @ json_gap) v = Some p'"
          by (cases "ser (ind @ json_gap) v") (auto simp: ser_None_iff)
        have "parse_value k (p' @ r) = Some (canon v, r)"
          using 6(1)[OF v(1) p'] 6(3,4) v(1) d le v(4) by (simp add: json_gap_def)
        with False v p' show ?thesis by simp
      qed
    qed
    have ne: "map fst es \<noteq> []" and st: "starts_value (hd (map fst es))"
      using False by (auto simp: es_def starts_value_element hd_map)
    have "parse_elems m ([] @ join_with (CHR '','' # nl # ind @ json_gap) (map fst es) @ nl # ind @ CHR '']'' # rest)
            = Some (map (\<lambda>e. fst (snd e)) es, rest)"
      by (rule parse_elems_join)
         (use False items 6(4) m in \<open>auto simp: es_def json_gap_def o_def\<close>)
    then show ?thesis
      using t n False parse_value_bracket[OF starts_value_join[OF ne st] blank_indent[OF 6(4)]]
      by (simp add: ser_wrap_append es_def o_def)
  qed
next
  case (7 ind kvs)
  let ?ps = "filter (\<lambda>kv. snd kv \<noteq> JUndefined) (own_keys_order kvs)"
  define ms where "ms = map (member_item (ind @ json_gap)) ?ps"
  have t: "t = ser_wrap CHR ''{'' CHR ''}'' ind (map member_text ms)"
    using 7(2) by (simp add: members_text ms_def)
  obtain m where n: "n = Suc m" and m: "sum_list (map (\<lambda>e. snd (snd (snd e))) ms) + length ms \<le> m"
    using 7(6) unfolding fuel_JObj by (cases n) (auto simp: ms_def member_item_def sum_list_Suc o_def)
  show ?case
  proof (cases "ms = []")
    case True
    then show ?thesis
      using t n by (simp add: ser_wrap_def skip_ws_stop is_ws_def ms_def)
  next
    case False
    have items: "parse_value k (p @ r) = Some (x, r)"
      if mem: "(key, p, x, f) \<in> set ms" and d: "delim r" and le: "f \<le> k" for key p x f r k
    proof -
      obtain kv where "kv \<in> set ?ps" "(key, p, x, f) = member_item (ind @ json_gap) kv"
        using mem unfolding ms_def set_map image_iff by blast
      then have kv: "kv \<in> set (own_keys_order kvs)" "snd kv \<noteq> JUndefined"
        "p = the (ser (ind @ json_gap) (snd kv))" "x = canon (snd kv)" "f = fuel (snd kv)"
        by (simp_all add: member_item_def)
      then obtain p' where p': "ser (ind @ json_gap) (snd kv) = Some p'"
        by (cases "ser (ind @ json_gap) (snd kv)") (auto simp: ser_None_iff)
      have "parse_value k (p' @ r) = Some (canon (snd kv), r)"
        using 7(1)[OF kv(1) p'] 7(3,4) kv(1) d le kv(5) by (simp add: json_gap_def)
      with kv p' show ?thesis by simp
    qed
    have ne: "map member_text ms \<noteq> []" and st: "starts_value (hd (map member_text ms))"
      using False by (auto simp: member_text_starts hd_map)
    have "parse_members m ([] @ join_with (CHR '','' # nl # ind @ json_gap) (map member_text ms) @ nl # ind @ CHR ''}'' # rest)
            = Some (map (\<lambda>m. (fst m, fst (snd (snd m)))) ms, rest)"
      by (rule parse_members_join) (use False items 7(4) m in \<open>auto simp: json_gap_def\<close>)
    moreover have "map (\<lambda>m. (fst m, fst (snd (snd m)))) ms = map (\<lambda>kv. (fst kv, canon (snd kv))) ?ps"
      by (simp add: ms_def member_item_def)
    moreover have "distinct (map fst (map (\<lambda>kv. (fst kv, canon (snd kv))) ?ps))"
      using distinct_members[of kvs] 7(3) by (simp add: o_def)
    ultimately show ?thesis
      using t n False parse_value_brace[OF starts_value_join[OF ne st] blank_indent[OF 7(4)]]
      by (simp add: ser_wrap_append build_object_def build_object_distinct[where acc = "[]", simplified])
  qed
qed

lemma length_ser_wrap:
  assumes "ps \<noteq> []"
  shows "sum_list (map length ps) + 4 * length ps + 2 \<le> length (ser_wrap o1 o2 ind ps)"
proof -
  have "(length ps - 1) * 4 \<le> (length ps - 1) * (length ind + 4)"
    by (rule mult_le_mono2) simp
  moreover have "1 \<le> length ps"
    using assms by (cases ps) auto
  ultimately show ?thesis
    using assms by (simp add: ser_wrap_def length_join_with json_gap_def)
qed

lemma fuel_le_length: "ser ind v = Some t \<Longrightarrow> fuel v \<le> length t"
proof (induction ind v arbitrary: t rule: ser.induct)
  case (4 ind i)
  then show ?case
    by (cases "nat_digits (nat \<bar>i\<bar>)") (auto simp: number_to_string_def split: if_splits)
next
  case (6 ind vs)
  let ?pr = "\<lambda>v. case ser (ind @ json_gap) v of None \<Rightarrow> ''null'' | Some t \<Rightarrow> t"
  have t: "t = ser_wrap CHR ''['' CHR '']'' ind (map ?pr vs)"
    using 6(2) by simp
  have "sum_list (map fuel vs) \<le> sum_list (map (\<lambda>v. length (?pr v)) vs)"
  proof (rule sum_list_mono)
    fix v assume "v \<in> set vs"
    then show "fuel v \<le> length (?pr v)"
      using 6(1) by (cases "ser (ind @ json_gap) v") (auto simp: ser_None_iff)
  qed
  then show ?case
    using length_ser_wrap[of "map ?pr vs" "CHR ''[''" "CHR '']''" ind] t
    by (cases "vs = []") (auto simp: ser_wrap_def o_def)
next
  case (7 ind kvs)
  let ?ps = "filter (\<lambda>kv. snd kv \<noteq> JUndefined) (own_keys_order kvs)"
  let ?ms = "map (member_item (ind @ json_gap)) ?ps"
  have t: "t = ser_wrap CHR ''{'' CHR ''}'' ind (map member_text ?ms)"
    using 7(2) by (simp add: members_text)
  have "sum_list (map (\<lambda>kv. Suc (fuel (snd kv))) ?ps)
          \<le> sum_list (map (\<lambda>kv. length (member_text (member_item (ind @ json_gap) kv))) ?ps)"
  proof (rule sum_list_mono)
    fix kv assume kv: "kv \<in> set ?ps"
    then obtain p where p: "ser (ind @ json_gap) (snd kv) = Some p"
      by (cases "ser (ind @ json_gap) (snd kv)") (auto simp: ser_None_iff)
    with kv 7(1) have "fuel (snd kv) \<le> length p"
      by auto
    with p show "Suc (fuel (snd kv)) \<le> length (member_text (member_item (ind @ json_gap) kv))"
      by (simp add: member_text_def member_item_def quote_json_string_def)
  qed
  then show ?case
    using length_ser_wrap[of "map member_text ?ms" "CHR ''{''" "CHR ''}''" ind] t
    unfolding fuel_JObj by (cases "?ps = []") (auto simp: ser_wrap_def o_def)
qed (auto simp: quote_json_string_def)

lemma parse_stringify:
  assumes "keys_distinct v" "json_stringify v = Some t"
  shows "json_parse t = Some (canon v)"
proof -
  have "parse_value (length t) (t @ []) = Some (canon v, [])"
    using assms fuel_le_length[of "[]" v t]
    by (intro parse_ser[of "[]"]) (simp_all add: json_stringify_def delim_def)
  then show ?thesis
    by (simp add: json_parse_def skip_ws_def)
qed

end
