(* ===== verification/Catalog.thy ===== *)
theory Catalog
  imports JsValue
begin

text \<open>
  The tool catalog \<open>TOOLS\<close> of \<open>src/src/index.ts\<close> (lines 30--91): four
  descriptors, each with a name, a description and a JSON-Schema-like input
  schema listing its properties, their primitive types and the required
  ones. The catalog is built once and never changed; the ListTools handler
  returns it as it is. The theory also gives the meaning of a schema as a
  predicate on a call's arguments (\<open>conforms\<close>), which the handlers never
  check: the MCP SDK's low-level \<open>Server\<close> does not validate arguments.
\<close>

section \<open>Descriptors\<close>

datatype param_type = TypeString | TypeObject

record param_schema =
  param_type :: param_type
  param_description :: string

record input_schema =
  schema_type :: string
  properties :: "(string \<times> param_schema) list"
  required :: "string list"

record tool =
  name :: string
  description :: string
  inputSchema :: input_schema

definition path_param :: "string \<Rightarrow> string \<times> param_schema" where
  "path_param d = (''path'', \<lparr>param_type = TypeString, param_description = d\<rparr>)"

definition TOOLS :: "tool list" where
  \<open>TOOLS =
    [\<lparr>name = ''vault_read'',
      description = ''Read a secret from Vault at the specified path'',
      inputSchema = \<lparr>schema_type = ''object'',
        properties = [path_param ''The path to read the secret from (e.g., \'secret/data/myapp\')''],
        required = [''path'']\<rparr>\<rparr>,
     \<lparr>name = ''vault_write'',
      description = ''Write a secret to Vault at the specified path'',
      inputSchema = \<lparr>schema_type = ''object'',
        properties = [path_param ''The path to write the secret to (e.g., \'secret/data/myapp\')'',
          (''data'', \<lparr>param_type = TypeObject,
                      param_description = ''The secret data to write as a JSON object''\<rparr>)],
        required = [''path'', ''data'']\<rparr>\<rparr>,
     \<lparr>name = ''vault_list'',
      description = ''List secrets at the specified path in Vault'',
      inputSchema = \<lparr>schema_type = ''object'',
        properties = [path_param ''The path to list secrets from (e.g., \'secret/metadata\')''],
        required = [''path'']\<rparr>\<rparr>,
     \<lparr>name = ''vault_delete'',
      description = ''Delete a secret from Vault at the specified path'',
      inputSchema = \<lparr>schema_type = ''object'',
        properties = [path_param ''The path to delete the secret from (e.g., \'secret/data/myapp\')''],
        required = [''path'']\<rparr>\<rparr>]\<close>

definition tool_names :: "string list" where
  "tool_names = map name TOOLS"

section \<open>What a schema admits\<close>

text \<open>
  The arguments a schema admits: an object (not \<open>undefined\<close>) in which
  every required property is present and every declared property that is
  present has the declared primitive type.
\<close>

fun has_type :: "param_type \<Rightarrow> jsval \<Rightarrow> bool" where
  "has_type TypeString v = (case v of JStr _ \<Rightarrow> True | _ \<Rightarrow> False)"
| "has_type TypeObject v = (case v of JObj _ \<Rightarrow> True | _ \<Rightarrow> False)"

definition conforms :: "input_schema \<Rightarrow> (string \<times> jsval) list option \<Rightarrow> bool" where
  "conforms sch a =
     (case a of
        None \<Rightarrow> False
      | Some kvs \<Rightarrow>
          (\<forall>k \<in> set (required sch). k \<in> fst ` set kvs) \<and>
          (\<forall>(k, p) \<in> set (properties sch). k \<in> fst ` set kvs \<longrightarrow> has_type (param_type p) (obj_get kvs k)))"

lemma tool_names_eq: "tool_names = [''vault_read'', ''vault_write'', ''vault_list'', ''vault_delete'']"
  by (simp add: tool_names_def TOOLS_def)

end
