(* ===== verification/Vault.thy ===== *)
theory Vault
  imports JsValue
begin

text \<open>
  The Backend Client Adapter: the \<open>node-vault\<close> client that
  \<open>src/src/index.ts\<close> constructs once (lines 23--27) and the four calls the
  handlers make on it: \<open>read\<close>, \<open>write\<close>, \<open>list\<close> and \<open>delete\<close>. The
  library and the Vault server behind it are not part of the repository; the
  model keeps them abstract. A backend is any function that, given the
  client, the backend's state and one request, resolves with a JSON body or
  rejects with a thrown value, and returns the new state. Every lemma of the
  dispatcher holds for every such function.

  \<open>logged\<close> wraps a backend so that its state also records the requests
  made to it, in order; lemmas about which requests a handler makes are
  stated through it.
\<close>

record vault_client =
  apiVersion :: string
  endpoint :: string
  token :: string

datatype vault_req =
    VRead jsval
  | VWrite jsval jsval
  | VList jsval
  | VDelete jsval

type_synonym 's backend = "vault_client \<Rightarrow> 's \<Rightarrow> vault_req \<Rightarrow> (thrown + jsval) \<times> 's"

definition logged :: "'s backend \<Rightarrow> ('s \<times> (vault_client \<times> vault_req) list) backend" where
  "logged b c st r =
     (case b c (fst st) r of (res, s') \<Rightarrow> (res, (s', snd st @ [(c, r)])))"

lemma logged_apply [simp]:
  "logged b c (s, log) r = (fst (b c s r), (snd (b c s r), log @ [(c, r)]))"
  by (simp add: logged_def split: prod.split)

end
