(* ===== verification/Dispatcher.thy ===== *)
theory Dispatcher
  imports JsonStringify Vault
begin

text \<open>
  The CallTool request handler of \<open>src/src/index.ts\<close> (lines 114--187).
  \<open>dispatch\<close> is the \<open>switch\<close> on the tool name inside the \<open>try\<close> block,
  one handler per \<open>case\<close>; each handler destructures its arguments, makes
  one backend call and renders the result, and every step that throws is an
  \<open>Inl\<close> value. \<open>call_tool\<close> is the whole handler: the \<open>catch\<close> block turns
  every thrown value, the \<open>Unknown tool\<close> error of the \<open>default\<close> branch
  included, into a result flagged \<open>isError\<close>.
\<close>

section \<open>Results\<close>

record content_item =
  item_type :: string
  item_text :: "string option"

text \<open>
  \<open>isError\<close> is absent (\<open>None\<close>) in the results of the \<open>try\<close> block and
  \<open>true\<close> in the result of the \<open>catch\<close> block. A text of \<open>None\<close> is the
  \<open>undefined\<close> that \<open>JSON.stringify\<close> returns for \<open>undefined\<close>.
\<close>

record call_result =
  content :: "content_item list"
  isError :: "bool option"

type_synonym tool_args = "(string \<times> jsval) list option"

definition text_result :: "string option \<Rightarrow> call_result" where
  "text_result t = \<lparr>content = [\<lparr>item_type = ''text'', item_text = t\<rparr>], isError = None\<rparr>"

definition error_message :: "thrown \<Rightarrow> string" where
  "error_message e = (case e of ErrorObj m \<Rightarrow> m | ThrownVal v \<Rightarrow> js_to_string v)"

definition error_result :: "string \<Rightarrow> thrown \<Rightarrow> call_result" where
  "error_result nm e =
     \<lparr>content = [\<lparr>item_type = ''text'',
                  item_text = Some (''Error executing '' @ nm @ '': '' @ error_message e)\<rparr>],
      isError = Some True\<rparr>"

section \<open>The four handlers\<close>

definition handle_vault_read ::
  "'s backend \<Rightarrow> vault_client \<Rightarrow> tool_args \<Rightarrow> 's \<Rightarrow> (thrown + call_result) \<times> 's" where
  "handle_vault_read b c args s =
     (case destructure args ''path'' of
        Inl e \<Rightarrow> (Inl e, s)
      | Inr path \<Rightarrow>
          (case b c s (VRead path) of
             (Inl e, s') \<Rightarrow> (Inl e, s')
           | (Inr result, s') \<Rightarrow>
               (case get_member result ''data'' of
                  Inl e \<Rightarrow> (Inl e, s')
                | Inr d \<Rightarrow> (Inr (text_result (json_stringify d)), s'))))"

definition handle_vault_write ::
  "'s backend \<Rightarrow> vault_client \<Rightarrow> tool_args \<Rightarrow> 's \<Rightarrow> (thrown + call_result) \<times> 's" where
  "handle_vault_write b c args s =
     (case destructure args ''path'' of
        Inl e \<Rightarrow> (Inl e, s)
      | Inr path \<Rightarrow>
          (case destructure args ''data'' of
             Inl e \<Rightarrow> (Inl e, s)
           | Inr data \<Rightarrow>
               (case b c s (VWrite path (JObj [(''data'', data)])) of
                  (Inl e, s') \<Rightarrow> (Inl e, s')
                | (Inr result, s') \<Rightarrow> (Inr (text_result (json_stringify result)), s'))))"

definition handle_vault_list ::
  "'s backend \<Rightarrow> vault_client \<Rightarrow> tool_args \<Rightarrow> 's \<Rightarrow> (thrown + call_result) \<times> 's" where
  "handle_vault_list b c args s =
     (case destructure args ''path'' of
        Inl e \<Rightarrow> (Inl e, s)
      | Inr path \<Rightarrow>
          (case b c s (VList path) of
             (Inl e, s') \<Rightarrow> (Inl e, s')
           | (Inr result, s') \<Rightarrow>
               (case get_member result ''data'' of
                  Inl e \<Rightarrow> (Inl e, s')
                | Inr d \<Rightarrow> (Inr (text_result (json_stringify d)), s'))))"

definition delete_message :: "jsval \<Rightarrow> string" where
  "delete_message path = ''Successfully deleted secret at path: '' @ js_to_string path"

definition handle_vault_delete ::
  "'s backend \<Rightarrow> vault_client \<Rightarrow> tool_args \<Rightarrow> 's \<Rightarrow> (thrown + call_result) \<times> 's" where
  "handle_vault_delete b c args s =
     (case destructure args ''path'' of
        Inl e \<Rightarrow> (Inl e, s)
      | Inr path \<Rightarrow>
          (case b c s (VDelete path) of
             (Inl e, s') \<Rightarrow> (Inl e, s')
           | (Inr _, s') \<Rightarrow> (Inr (text_result (Some (delete_message path))), s')))"

section \<open>Dispatch and the catch block\<close>

definition dispatch ::
  "'s backend \<Rightarrow> vault_client \<Rightarrow> string \<Rightarrow> tool_args \<Rightarrow> 's \<Rightarrow> (thrown + call_result) \<times> 's" where
  "dispatch b c nm args s =
     (if nm = ''vault_read'' then handle_vault_read b c args s
      else if nm = ''vault_write'' then handle_vault_write b c args s
      else if nm = ''vault_list'' then handle_vault_list b c args s
      else if nm = ''vault_delete'' then handle_vault_delete b c args s
      else (Inl (ErrorObj (''Unknown tool: '' @ nm)), s))"

definition call_tool ::
  "'s backend \<Rightarrow> vault_client \<Rightarrow> string \<Rightarrow> tool_args \<Rightarrow> 's \<Rightarrow> call_result \<times> 's" where
  "call_tool b c nm args s =
     (case dispatch b c nm args s of
        (Inr r, s') \<Rightarrow> (r, s')
      | (Inl e, s') \<Rightarrow> (error_result nm e, s'))"

lemmas handler_defs = call_tool_def dispatch_def handle_vault_read_def handle_vault_write_def
  handle_vault_list_def handle_vault_delete_def destructure_def

section \<open>The contract of a tool call\<close>

text \<open>
  What spec section 4.1 asks of a call: a known tool with arguments makes
  exactly one backend request, \<open>tool_request\<close>, built from the arguments
  as they are (no validation; \<open>vault_write\<close> wraps its data in a
  \<open>{data: ...}\<close> envelope), then renders the backend's answer
  (\<open>render_response\<close>: the \<open>data\<close> field for read and list, the whole
  response for write, a fixed sentence for delete). A call that makes no
  request fails with \<open>rejection\<close>.
\<close>

definition switch_names :: "string list" where
  "switch_names = [''vault_read'', ''vault_write'', ''vault_list'', ''vault_delete'']"

definition tool_request :: "string \<Rightarrow> tool_args \<Rightarrow> vault_req option" where
  "tool_request nm args =
     (case args of
        None \<Rightarrow> None
      | Some kvs \<Rightarrow>
          (if nm = ''vault_read'' then Some (VRead (obj_get kvs ''path''))
           else if nm = ''vault_write'' then
             Some (VWrite (obj_get kvs ''path'') (JObj [(''data'', obj_get kvs ''data'')]))
           else if nm = ''vault_list'' then Some (VList (obj_get kvs ''path''))
           else if nm = ''vault_delete'' then Some (VDelete (obj_get kvs ''path''))
           else None))"

definition render_response :: "string \<Rightarrow> jsval \<Rightarrow> jsval \<Rightarrow> thrown + call_result" where
  "render_response nm path v =
     (if nm = ''vault_write'' then Inr (text_result (json_stringify v))
      else if nm = ''vault_delete'' then Inr (text_result (Some (delete_message path)))
      else (case get_member v ''data'' of
              Inl e \<Rightarrow> Inl e
            | Inr d \<Rightarrow> Inr (text_result (json_stringify d))))"

definition rejection :: "string \<Rightarrow> thrown" where
  "rejection nm =
     (if nm \<in> set switch_names then ErrorObj (destructure_error ''path'' ''args'')
      else ErrorObj (''Unknown tool: '' @ nm))"

text \<open>The outcome of one request: its failure, or the rendering of its answer.\<close>

definition after_request ::
  "string \<Rightarrow> jsval \<Rightarrow> (thrown + jsval) \<times> 's \<Rightarrow> (thrown + call_result) \<times> 's" where
  "after_request nm path rs =
     (case rs of (Inl e, s') \<Rightarrow> (Inl e, s') | (Inr v, s') \<Rightarrow> (render_response nm path v, s'))"

definition catch_result :: "string \<Rightarrow> thrown + call_result \<Rightarrow> call_result" where
  "catch_result nm r = (case r of Inr res \<Rightarrow> res | Inl e \<Rightarrow> error_result nm e)"

subsection \<open>Each handler meets the contract\<close>

lemma destructure_simps [simp]:
  "destructure None k = Inl (ErrorObj (destructure_error k ''args''))"
  "destructure (Some kvs) k = Inr (obj_get kvs k)"
  by (simp_all add: destructure_def)

lemma handle_vault_read_eq [handler_simps]:
  "handle_vault_read b c None s = (Inl (rejection ''vault_read''), s)"
  "handle_vault_read b c (Some kvs) s =
     after_request ''vault_read'' (obj_get kvs ''path'') (b c s (VRead (obj_get kvs ''path'')))"
  by (simp_all add: handle_vault_read_def rejection_def switch_names_def after_request_def
      render_response_def split: prod.split sum.split)

lemma handle_vault_write_eq [handler_simps]:
  "handle_vault_write b c None s = (Inl (rejection ''vault_write''), s)"
  "handle_vault_write b c (Some kvs) s =
     after_request ''vault_write'' (obj_get kvs ''path'')
       (b c s (VWrite (obj_get kvs ''path'') (JObj [(''data'', obj_get kvs ''data'')])))"
  by (simp_all add: handle_vault_write_def rejection_def switch_names_def after_request_def
      render_response_def split: prod.split sum.split)

lemma handle_vault_list_eq [handler_simps]:
  "handle_vault_list b c None s = (Inl (rejection ''vault_list''), s)"
  "handle_vault_list b c (Some kvs) s =
     after_request ''vault_list'' (obj_get kvs ''path'') (b c s (VList (obj_get kvs ''path'')))"
  by (simp_all add: handle_vault_list_def rejection_def switch_names_def after_request_def
      render_response_def split: prod.split sum.split)

lemma handle_vault_delete_eq [handler_simps]:
  "handle_vault_delete b c None s = (Inl (rejection ''vault_delete''), s)"
  "handle_vault_delete b c (Some kvs) s =
     after_request ''vault_delete'' (obj_get kvs ''path'') (b c s (VDelete (obj_get kvs ''path'')))"
  by (simp_all add: handle_vault_delete_def rejection_def switch_names_def after_request_def
      render_response_def split: prod.split sum.split)

text \<open>The path a request carries.\<close>

fun req_path :: "vault_req \<Rightarrow> jsval" where
  "req_path (VRead p) = p"
| "req_path (VWrite p _) = p"
| "req_path (VList p) = p"
| "req_path (VDelete p) = p"

lemma dispatch_contract:
  "dispatch b c nm args s =
     (case tool_request nm args of
        None \<Rightarrow> (Inl (rejection nm), s)
      | Some r \<Rightarrow> after_request nm (req_path r) (b c s r))"
  by (cases args) (simp_all add: dispatch_def tool_request_def handler_simps rejection_def switch_names_def)

lemma call_tool_catch: "call_tool b c nm args s = apfst (catch_result nm) (dispatch b c nm args s)"
  by (simp add: handler_defs(1) catch_result_def split: prod.split sum.split)

lemma after_request_simps [simp]:
  "after_request nm p (Inl e, s') = (Inl e, s')"
  "after_request nm p (Inr v, s') = (render_response nm p v, s')"
  by (simp_all add: after_request_def)

lemma call_tool_eq:
  "call_tool b c nm args s =
     (case tool_request nm args of
        None \<Rightarrow> (error_result nm (rejection nm), s)
      | Some r \<Rightarrow> apfst (catch_result nm) (after_request nm (req_path r) (b c s r)))"
  by (simp add: call_tool_catch dispatch_contract catch_result_def split: option.split)

lemma call_tool_state:
  "snd (call_tool b c nm args s) = (case tool_request nm args of None \<Rightarrow> s | Some r \<Rightarrow> snd (b c s r))"
  by (simp add: call_tool_eq after_request_def split: option.split prod.split sum.split)

lemmas contract_simps = tool_request_def render_response_def catch_result_def
  rejection_def switch_names_def

section \<open>Properties of a tool call\<close>

text \<open>
  C1. Refinement: the five-way \<open>switch\<close> with its four handlers and the
  \<open>catch\<close> block implements the contract. A call either makes no backend
  request and reports the rejection, or makes exactly the request
  \<open>tool_request\<close> names and reports its failure or the rendering of its
  answer.
\<close>

theorem call_tool_contract:
  "call_tool b c nm args s =
     (case tool_request nm args of
        None \<Rightarrow> (error_result nm (rejection nm), s)
      | Some r \<Rightarrow>
          (case b c s r of
             (Inl e, s') \<Rightarrow> (error_result nm e, s')
           | (Inr v, s') \<Rightarrow> (catch_result nm (render_response nm (req_path r) v), s')))"
  by (simp add: call_tool_eq catch_result_def split: option.split prod.split sum.split)

text \<open>
  C3. Every call makes exactly the backend request of the contract, with the
  client it was given, and no other: the requests a logging backend records
  grow by that one request, or by none when the contract names none.
\<close>

theorem call_tool_requests:
  "snd (snd (call_tool (logged b) c nm args (s, log))) =
     log @ (case tool_request nm args of None \<Rightarrow> [] | Some r \<Rightarrow> [(c, r)])"
  by (simp add: call_tool_state split: option.split)

text \<open>
  C4. \<open>vault_write\<close> forwards its data wrapped in a \<open>{data: ...}\<close>
  envelope, never the bare data, to the path it was given.
\<close>

theorem write_forwards_envelope:
  "snd (snd (call_tool (logged b) c ''vault_write'' (Some kvs) (s, log))) =
     log @ [(c, VWrite (obj_get kvs ''path'') (JObj [(''data'', obj_get kvs ''data'')]))]"
  by (simp add: call_tool_state tool_request_def)

text \<open>
  C5. A backend failure on the request of any tool is caught and reported as
  an error result carrying the failure's message, with the state the
  failed request left.
\<close>

theorem backend_failure_reported:
  assumes "tool_request nm args = Some r" and "fst (b c s r) = Inl e"
  shows "call_tool b c nm args s = (error_result nm e, snd (b c s r))"
proof -
  from assms(2) obtain s' where "b c s r = (Inl e, s')"
    by (cases "b c s r") simp
  with assms(1) show ?thesis
    by (simp add: call_tool_eq catch_result_def)
qed

theorem backend_failure_reported_witness:
  "tool_request ''vault_read'' (Some [(''path'', JStr ''secret/x'')]) = Some (VRead (JStr ''secret/x''))
   \<and> call_tool (\<lambda>c s r. (Inl (ErrorObj ''Status 404''), s)) \<lparr>apiVersion = ''v1'', endpoint = ''http://127.0.0.1:8200'', token = ''tok''\<rparr>
       ''vault_read'' (Some [(''path'', JStr ''secret/x'')]) (0::nat)
     = (error_result ''vault_read'' (ErrorObj ''Status 404''), 0)"
proof -
  have r: "tool_request ''vault_read'' (Some [(''path'', JStr ''secret/x'')]) = Some (VRead (JStr ''secret/x''))"
    by (simp add: tool_request_def obj_get_def)
  show ?thesis
    using r backend_failure_reported [OF r, where b = "\<lambda>c s r. (Inl (ErrorObj ''Status 404''), s)"
        and c = "\<lparr>apiVersion = ''v1'', endpoint = ''http://127.0.0.1:8200'', token = ''tok''\<rparr>" and s = "0::nat" and e = "ErrorObj ''Status 404''"]
    by simp
qed

text \<open>
  C6. Every result flagged \<open>isError\<close> holds one text item that starts with
  \<open>Error executing <tool-name>: \<close>.
\<close>

theorem error_result_text:
  assumes "isError (fst (call_tool b c nm args s)) = Some True"
  shows "\<exists>m. content (fst (call_tool b c nm args s)) =
           [\<lparr>item_type = ''text'', item_text = Some (''Error executing '' @ nm @ '': '' @ m)\<rparr>]"
  using assms
  by (auto simp: call_tool_eq after_request_def catch_result_def render_response_def
      error_result_def text_result_def split: option.split prod.split sum.split if_splits)

theorem error_result_text_witness:
  "isError (fst (call_tool (\<lambda>c s r. (Inr JNull, s)) \<lparr>apiVersion = ''v1'', endpoint = ''http://127.0.0.1:8200'', token = ''tok''\<rparr> ''vault_foo'' None (0::nat))) = Some True
   \<and> (\<exists>m. content (fst (call_tool (\<lambda>c s r. (Inr JNull, s)) \<lparr>apiVersion = ''v1'', endpoint = ''http://127.0.0.1:8200'', token = ''tok''\<rparr> ''vault_foo'' None (0::nat))) =
         [\<lparr>item_type = ''text'', item_text = Some (''Error executing vault_foo: '' @ m)\<rparr>])"
proof -
  have h: "isError (fst (call_tool (\<lambda>c s r. (Inr JNull, s)) \<lparr>apiVersion = ''v1'', endpoint = ''http://127.0.0.1:8200'', token = ''tok''\<rparr> ''vault_foo'' None (0::nat))) = Some True"
    by (simp add: call_tool_def dispatch_def error_result_def)
  show ?thesis
    using h error_result_text [OF h] by simp
qed

text \<open>
  C7. \<open>vault_read\<close>, when the backend answers with an object, succeeds
  with the pretty-printed JSON of the answer's \<open>data\<close> field only.
\<close>

theorem read_success:
  assumes "b c s (VRead (obj_get kvs ''path'')) = (Inr (JObj rkvs), s')"
  shows "call_tool b c ''vault_read'' (Some kvs) s =
           (text_result (json_stringify (obj_get rkvs ''data'')), s')"
  using assms by (simp add: call_tool_eq contract_simps)

theorem read_success_witness:
  "(\<lambda>c s r. (Inr (JObj [(''data'', JObj [(''k'', JStr ''v'')])]), s)) \<lparr>apiVersion = ''v1'', endpoint = ''http://127.0.0.1:8200'', token = ''tok''\<rparr> (0::nat) (VRead (JStr ''secret/data/app'')) = (Inr (JObj [(''data'', JObj [(''k'', JStr ''v'')])]), 0)
   \<and> call_tool (\<lambda>c s r. (Inr (JObj [(''data'', JObj [(''k'', JStr ''v'')])]), s)) \<lparr>apiVersion = ''v1'', endpoint = ''http://127.0.0.1:8200'', token = ''tok''\<rparr> ''vault_read''
       (Some [(''path'', JStr ''secret/data/app'')]) (0::nat)
     = (text_result (json_stringify (JObj [(''k'', JStr ''v'')])), 0)"
  using read_success [where b = "\<lambda>c s r. (Inr (JObj [(''data'', JObj [(''k'', JStr ''v'')])]), s)" and c = "\<lparr>apiVersion = ''v1'', endpoint = ''http://127.0.0.1:8200'', token = ''tok''\<rparr>" and s = "0::nat"
      and kvs = "[(''path'', JStr ''secret/data/app'')]" and rkvs = "[(''data'', JObj [(''k'', JStr ''v'')])]" and s' = "0::nat"]
  by (simp add: obj_get_def)

text \<open>
  C8. \<open>vault_write\<close>, when the backend accepts the write, succeeds with the
  pretty-printed JSON of the whole response, not of its \<open>data\<close> field.
\<close>

theorem write_success:
  assumes "b c s (VWrite (obj_get kvs ''path'') (JObj [(''data'', obj_get kvs ''data'')])) = (Inr v, s')"
  shows "call_tool b c ''vault_write'' (Some kvs) s = (text_result (json_stringify v), s')"
  using assms by (simp add: call_tool_eq contract_simps)

theorem write_success_witness:
  "(\<lambda>c s r. (Inr (JObj [(''data'', JObj [(''version'', JNum 1)])]), s)) \<lparr>apiVersion = ''v1'', endpoint = ''http://127.0.0.1:8200'', token = ''tok''\<rparr> (0::nat)
       (VWrite (JStr ''secret/data/app'') (JObj [(''data'', JObj [(''k'', JStr ''v'')])]))
     = (Inr (JObj [(''data'', JObj [(''version'', JNum 1)])]), 0)
   \<and> call_tool (\<lambda>c s r. (Inr (JObj [(''data'', JObj [(''version'', JNum 1)])]), s)) \<lparr>apiVersion = ''v1'', endpoint = ''http://127.0.0.1:8200'', token = ''tok''\<rparr> ''vault_write''
       (Some [(''path'', JStr ''secret/data/app''), (''data'', JObj [(''k'', JStr ''v'')])]) (0::nat)
     = (text_result (json_stringify (JObj [(''data'', JObj [(''version'', JNum 1)])])), 0)"
  using write_success [where b = "\<lambda>c s r. (Inr (JObj [(''data'', JObj [(''version'', JNum 1)])]), s)"
      and c = "\<lparr>apiVersion = ''v1'', endpoint = ''http://127.0.0.1:8200'', token = ''tok''\<rparr>" and s = "0::nat" and s' = "0::nat"
      and kvs = "[(''path'', JStr ''secret/data/app''), (''data'', JObj [(''k'', JStr ''v'')])]"
      and v = "JObj [(''data'', JObj [(''version'', JNum 1)])]"]
  by (simp add: obj_get_def)

text \<open>
  C9. \<open>vault_list\<close>, when the backend answers with an object, succeeds with
  the pretty-printed JSON of the answer's \<open>data\<close> field.
\<close>

theorem list_success:
  assumes "b c s (VList (obj_get kvs ''path'')) = (Inr (JObj rkvs), s')"
  shows "call_tool b c ''vault_list'' (Some kvs) s =
           (text_result (json_stringify (obj_get rkvs ''data'')), s')"
  using assms by (simp add: call_tool_eq contract_simps)

theorem list_success_witness:
  "(\<lambda>c s r. (Inr (JObj [(''data'', JObj [(''keys'', JArr [JStr ''a''])])]), s)) \<lparr>apiVersion = ''v1'', endpoint = ''http://127.0.0.1:8200'', token = ''tok''\<rparr> (0::nat) (VList (JStr ''secret/data/app'')) = (Inr (JObj [(''data'', JObj [(''keys'', JArr [JStr ''a''])])]), 0)
   \<and> call_tool (\<lambda>c s r. (Inr (JObj [(''data'', JObj [(''keys'', JArr [JStr ''a''])])]), s)) \<lparr>apiVersion = ''v1'', endpoint = ''http://127.0.0.1:8200'', token = ''tok''\<rparr> ''vault_list''
       (Some [(''path'', JStr ''secret/data/app'')]) (0::nat)
     = (text_result (json_stringify (JObj [(''keys'', JArr [JStr ''a''])])), 0)"
  using list_success [where b = "\<lambda>c s r. (Inr (JObj [(''data'', JObj [(''keys'', JArr [JStr ''a''])])]), s)" and c = "\<lparr>apiVersion = ''v1'', endpoint = ''http://127.0.0.1:8200'', token = ''tok''\<rparr>" and s = "0::nat"
      and kvs = "[(''path'', JStr ''secret/data/app'')]" and rkvs = "[(''data'', JObj [(''keys'', JArr [JStr ''a''])])]" and s' = "0::nat"]
  by (simp add: obj_get_def)

text \<open>
  C10. \<open>vault_delete\<close>, when the backend accepts the delete, discards the
  answer and succeeds with the sentence that embeds the path.
\<close>

theorem delete_success:
  assumes "b c s (VDelete (obj_get kvs ''path'')) = (Inr v, s')"
  shows "call_tool b c ''vault_delete'' (Some kvs) s =
           (text_result (Some (''Successfully deleted secret at path: '' @ js_to_string (obj_get kvs ''path''))), s')"
  using assms by (simp add: call_tool_eq contract_simps delete_message_def)

theorem delete_success_witness:
  "(\<lambda>c s r. (Inr JUndefined, s)) \<lparr>apiVersion = ''v1'', endpoint = ''http://127.0.0.1:8200'', token = ''tok''\<rparr> (0::nat) (VDelete (JStr ''secret/data/app'')) = (Inr JUndefined, 0)
   \<and> call_tool (\<lambda>c s r. (Inr JUndefined, s)) \<lparr>apiVersion = ''v1'', endpoint = ''http://127.0.0.1:8200'', token = ''tok''\<rparr> ''vault_delete''
       (Some [(''path'', JStr ''secret/data/app'')]) (0::nat)
     = (text_result (Some ''Successfully deleted secret at path: secret/data/app''), 0)"
  using delete_success [where b = "\<lambda>c s r. (Inr JUndefined, s)" and c = "\<lparr>apiVersion = ''v1'', endpoint = ''http://127.0.0.1:8200'', token = ''tok''\<rparr>" and s = "0::nat"
      and s' = "0::nat" and kvs = "[(''path'', JStr ''secret/data/app'')]" and v = JUndefined]
  by (simp add: obj_get_def)

text \<open>
  C11. Every result, success or error, holds exactly one content item, of
  type \<open>text\<close>, and \<open>isError\<close> is either absent or \<open>true\<close>.
\<close>

theorem call_tool_one_text_item:
  "(\<exists>t. content (fst (call_tool b c nm args s)) = [\<lparr>item_type = ''text'', item_text = t\<rparr>])
   \<and> isError (fst (call_tool b c nm args s)) \<in> {None, Some True}"
  by (auto simp: call_tool_eq after_request_def catch_result_def render_response_def
      error_result_def text_result_def split: option.split prod.split sum.split)

end
