(* ===== verification/Server.thy ===== *)
theory Server
  imports Catalog Dispatcher
begin

text \<open>
  The process of \<open>src/src/index.ts\<close> around the two request handlers: the
  environment check at module load (lines 13--20), the Vault client built
  from it (lines 23--27), the two handlers registered on the MCP server
  (lines 106--187) and \<open>main\<close>, which connects the stdio transport and
  reports that the server runs, or prints a fatal error and exits (lines
  189--199). The process is a step relation over its phases, each step
  labelled with what it writes to standard error or answers on the
  transport; a run is a sequence of steps. Requests are served one at a
  time, each handler run to completion.
\<close>

section \<open>Configuration\<close>

type_synonym env = "string \<Rightarrow> string option"

text \<open>\<open>v || d\<close> on an environment variable: \<open>d\<close> when \<open>v\<close> is \<open>undefined\<close> or empty.\<close>

definition env_or :: "string option \<Rightarrow> string \<Rightarrow> string" where
  "env_or v d = (case v of None \<Rightarrow> d | Some x \<Rightarrow> if x = [] then d else x)"

record config =
  vault_addr :: string
  vault_token :: string

definition token_error :: string where
  "token_error = ''Error: VAULT_TOKEN environment variable is required''"

text \<open>
  Lines 13--20: \<open>Inl\<close> is the message printed before \<open>process.exit(1)\<close>;
  \<open>!VAULT_TOKEN\<close> holds for an unset and for an empty variable.
\<close>

definition load_config :: "env \<Rightarrow> string + config" where
  "load_config e =
     (let addr = env_or (e ''VAULT_ADDR'') ''http://127.0.0.1:8200''
      in case e ''VAULT_TOKEN'' of
           None \<Rightarrow> Inl token_error
         | Some t \<Rightarrow> if t = [] then Inl token_error else Inr \<lparr>vault_addr = addr, vault_token = t\<rparr>)"

definition make_client :: "config \<Rightarrow> vault_client" where
  "make_client cfg = \<lparr>apiVersion = ''v1'', endpoint = vault_addr cfg, token = vault_token cfg\<rparr>"

section \<open>Requests\<close>

datatype request = ListTools | CallTool string tool_args

datatype response = ToolsList "tool list" | ToolResult call_result

definition handle_request :: "'s backend \<Rightarrow> vault_client \<Rightarrow> request \<Rightarrow> 's \<Rightarrow> response \<times> 's" where
  "handle_request b c req s =
     (case req of
        ListTools \<Rightarrow> (ToolsList TOOLS, s)
      | CallTool nm args \<Rightarrow> apfst ToolResult (call_tool b c nm args s))"

text \<open>
  A request whose fields have the types the catalog declares: a string
  path, and for a write the \<open>{data: ...}\<close> envelope around an object.
\<close>

fun request_well_typed :: "vault_req \<Rightarrow> bool" where
  "request_well_typed (VWrite p d) =
     (has_type TypeString p \<and> (case d of JObj [(k, v)] \<Rightarrow> k = ''data'' \<and> has_type TypeObject v | _ \<Rightarrow> False))"
| "request_well_typed r = has_type TypeString (req_path r)"

section \<open>The process\<close>

text \<open>
  \<open>Booting\<close>: the module is being loaded with this environment (lines
  12--27); \<open>Connecting\<close>: the client is built and \<open>main\<close> awaits
  \<open>server.connect\<close> (lines 189--192); \<open>Serving\<close>: requests are answered;
  \<open>Exited\<close>: the process has exited with this status. The backend state
  travels with the process. Exits: \<open>process.exit(1)\<close> on a missing token
  (line 19) and in the fatal-error handler of \<open>main\<close> (lines 196--199);
  and status 0 when the client closes standard input while the server
  serves: the stdio transport then stops reading and nothing else keeps
  the event loop alive.
\<close>

datatype 's proc =
    Booting env 's
  | Connecting vault_client 's
  | Serving vault_client 's
  | Exited nat

datatype event = Stderr string | Reply request response

definition running_message :: string where
  "running_message = ''Vault MCP Server running on stdio''"

inductive proc_step :: "'s backend \<Rightarrow> 's proc \<Rightarrow> event list \<Rightarrow> 's proc \<Rightarrow> bool"
  for b :: "'s backend" where
  boot_rejected: "load_config e = Inl m \<Longrightarrow> proc_step b (Booting e s) [Stderr m] (Exited 1)"
| boot_ok: "load_config e = Inr cfg \<Longrightarrow> proc_step b (Booting e s) [] (Connecting (make_client cfg) s)"
| connected: "proc_step b (Connecting c s) [Stderr running_message] (Serving c s)"
| connect_failed: "proc_step b (Connecting c s) [Stderr (''Fatal error: '' @ m)] (Exited 1)"
| serve: "handle_request b c req s = (resp, s') \<Longrightarrow> proc_step b (Serving c s) [Reply req resp] (Serving c s')"
| input_closed: "proc_step b (Serving c s) [] (Exited 0)"

inductive proc_run :: "'s backend \<Rightarrow> 's proc \<Rightarrow> event list \<Rightarrow> 's proc \<Rightarrow> bool"
  for b :: "'s backend" where
  run_nil: "proc_run b p [] p"
| run_step: "proc_step b p es q \<Longrightarrow> proc_run b q es' r \<Longrightarrow> proc_run b p (es @ es') r"

inductive_cases step_from_Booting: "proc_step b (Booting e s) es q"
inductive_cases step_from_Connecting: "proc_step b (Connecting c s) es q"
inductive_cases step_from_Serving: "proc_step b (Serving c s) es q"
inductive_cases step_from_Exited: "proc_step b (Exited n) es q"

section \<open>Runs\<close>

definition is_reply :: "event \<Rightarrow> bool" where
  "is_reply ev = (case ev of Reply _ _ \<Rightarrow> True | _ \<Rightarrow> False)"

lemma run_from_Exited:
  assumes "proc_run b (Exited n) es q"
  shows "es = [] \<and> q = Exited n"
  using assms by (cases rule: proc_run.cases) (auto elim: step_from_Exited)

lemma run_from_Serving_gen:
  assumes "proc_run b p es q" and "p = Serving c s"
  shows "(\<forall>ev \<in> set es. is_reply ev) \<and> ((\<exists>s'. q = Serving c s') \<or> q = Exited 0)"
  using assms
proof (induction arbitrary: s rule: proc_run.induct)
  case (run_nil p)
  then show ?case by simp
next
  case (run_step p es q es' r)
  from run_step.hyps(1) run_step.prems
  have "(\<exists>req resp s'. es = [Reply req resp] \<and> q = Serving c s') \<or> (es = [] \<and> q = Exited 0)"
    by (auto elim: step_from_Serving)
  with run_step.IH run_step.hyps(2) show ?case
    by (auto simp: is_reply_def dest: run_from_Exited)
qed

lemma run_from_Serving:
  "proc_run b (Serving c s) es q \<Longrightarrow>
     (\<forall>ev \<in> set es. is_reply ev) \<and> ((\<exists>s'. q = Serving c s') \<or> q = Exited 0)"
  by (rule run_from_Serving_gen) simp_all

lemma run_from_Connecting:
  assumes "proc_run b (Connecting c s) es q"
  shows "(es = [] \<and> q = Connecting c s)
       \<or> (\<exists>m. es = [Stderr (''Fatal error: '' @ m)] \<and> q = Exited 1)
       \<or> (\<exists>rest. es = Stderr running_message # rest \<and> proc_run b (Serving c s) rest q)"
  using assms
proof (cases rule: proc_run.cases)
  case run_nil
  then show ?thesis by simp
next
  case (run_step es1 q1 es2)
  from run_step(2) have "(\<exists>m. es1 = [Stderr (''Fatal error: '' @ m)] \<and> q1 = Exited 1)
      \<or> (es1 = [Stderr running_message] \<and> q1 = Serving c s)"
    by (auto elim: step_from_Connecting)
  with run_step(1,3) show ?thesis by (auto dest: run_from_Exited)
qed

lemma run_from_Booting:
  assumes "proc_run b (Booting e s) es q"
  shows "(es = [] \<and> q = Booting e s)
       \<or> (\<exists>m. load_config e = Inl m \<and> es = [Stderr m] \<and> q = Exited 1)
       \<or> (\<exists>cfg. load_config e = Inr cfg \<and> proc_run b (Connecting (make_client cfg) s) es q)"
  using assms
proof (cases rule: proc_run.cases)
  case run_nil
  then show ?thesis by simp
next
  case (run_step es1 q1 es2)
  from run_step(2) have "(\<exists>m. load_config e = Inl m \<and> es1 = [Stderr m] \<and> q1 = Exited 1)
      \<or> (\<exists>cfg. load_config e = Inr cfg \<and> es1 = [] \<and> q1 = Connecting (make_client cfg) s)"
    by (auto elim: step_from_Booting)
  with run_step(1,3) show ?thesis by (auto dest: run_from_Exited)
qed

lemma load_config_token:
  "(\<exists>m. load_config e = Inl m) \<longleftrightarrow> e ''VAULT_TOKEN'' = None \<or> e ''VAULT_TOKEN'' = Some []"
  by (auto simp: load_config_def Let_def split: option.split)

text \<open>
  C12. Without a usable \<open>VAULT_TOKEN\<close> (unset or empty) the process
  prints the configuration error and exits with status 1 before it serves
  anything: every run from start-up has at most that one event, and no run
  ever answers a request.
\<close>

theorem no_reply_without_token:
  assumes "e ''VAULT_TOKEN'' = None \<or> e ''VAULT_TOKEN'' = Some []"
    and "proc_run b (Booting e s) es p"
  shows "(es = [] \<and> p = Booting e s) \<or> (es = [Stderr token_error] \<and> p = Exited 1)"
proof -
  from assms(1) have "load_config e = Inl token_error"
    by (auto simp: load_config_def)
  with run_from_Booting [OF assms(2)] show ?thesis by auto
qed


text \<open>
  C16. With \<open>VAULT_ADDR\<close> unset or empty the client talks to
  \<open>http://127.0.0.1:8200\<close>.
\<close>

theorem default_endpoint:
  assumes "e ''VAULT_ADDR'' = None \<or> e ''VAULT_ADDR'' = Some []"
    and "load_config e = Inr cfg"
  shows "endpoint (make_client cfg) = ''http://127.0.0.1:8200''"
  using assms
  by (auto simp: load_config_def env_or_def make_client_def split: option.splits if_splits)

lemma step_list_tools:
  "proc_step b p es q \<Longrightarrow> Reply ListTools r \<in> set es \<Longrightarrow> r = ToolsList TOOLS"
  by (induction rule: proc_step.induct) (auto simp: handle_request_def)

text \<open>
  C14. The catalog the server lists and the handlers agree: in every run,
  every answer to a ListTools request lists exactly the tools the
  \<open>switch\<close> handles, in its order, and any arguments a listed tool's
  schema accepts reach the backend as one request with a string path (and,
  for \<open>vault_write\<close>, an object under \<open>data\<close>).
\<close>

theorem list_tools_reply:
  assumes "proc_run b p es q" and "Reply ListTools r \<in> set es"
  shows "\<exists>tools. r = ToolsList tools \<and> map name tools = switch_names
           \<and> (\<forall>t \<in> set tools. \<forall>kvs. conforms (inputSchema t) (Some kvs) \<longrightarrow>
                 (\<exists>rq. tool_request (name t) (Some kvs) = Some rq \<and> request_well_typed rq))"
proof -
  have "r = ToolsList TOOLS"
    using assms by (induction rule: proc_run.induct) (auto dest: step_list_tools)
  moreover have "map name TOOLS = switch_names"
    by (simp add: TOOLS_def switch_names_def)
  moreover have "\<forall>t \<in> set TOOLS. \<forall>kvs. conforms (inputSchema t) (Some kvs) \<longrightarrow>
                   (\<exists>rq. tool_request (name t) (Some kvs) = Some rq \<and> request_well_typed rq)"
    by (simp add: TOOLS_def conforms_def path_param_def tool_request_def)
  ultimately show ?thesis
    by blast
qed

lemma handle_request_log:
  assumes "handle_request (logged b) c req (s, log) = (resp, st')"
  shows "\<exists>new. snd st' = log @ new \<and> (\<forall>x \<in> set new. fst x = c)"
proof (cases req)
  case ListTools
  with assms show ?thesis by (auto simp: handle_request_def)
next
  case (CallTool nm args)
  have "snd (call_tool (logged b) c nm args (s, log)) =
          (case tool_request nm args of None \<Rightarrow> (s, log) | Some r \<Rightarrow> snd (logged b c (s, log) r))"
    by (rule call_tool_state)
  moreover from assms CallTool have "st' = snd (call_tool (logged b) c nm args (s, log))"
    by (cases "call_tool (logged b) c nm args (s, log)") (simp add: handle_request_def)
  ultimately show ?thesis
    by (auto split: option.splits)
qed

lemma run_from_Serving_log_gen:
  assumes "proc_run (logged b) p es q" and "p = Serving c (s, log)" and "q = Serving c' (s', log')"
  shows "\<exists>new. log' = log @ new \<and> (\<forall>x \<in> set new. fst x = c)"
  using assms
proof (induction arbitrary: s log rule: proc_run.induct)
  case (run_nil p)
  then show ?case by simp
next
  case (run_step p es q es' r)
  have step: "proc_step (logged b) (Serving c (s, log)) es q"
    using run_step.hyps(1) run_step.prems(1) by simp
  then have "(\<exists>req resp st'. q = Serving c st' \<and> handle_request (logged b) c req (s, log) = (resp, st'))
        \<or> q = Exited 0"
    by (cases rule: step_from_Serving) auto
  moreover have "q \<noteq> Exited 0"
    using run_step.hyps(2) run_step.prems(2) by (auto dest: run_from_Exited)
  ultimately obtain req resp st' where
    q: "q = Serving c st'" and h: "handle_request (logged b) c req (s, log) = (resp, st')"
    by blast
  obtain s1 log1 where st': "st' = (s1, log1)" by (cases st')
  from handle_request_log [OF h] st' obtain new1 where
    "log1 = log @ new1" and "\<forall>x \<in> set new1. fst x = c" by auto
  moreover from run_step.IH [OF q [unfolded st'] run_step.prems(2)] obtain new2 where
    "log' = log1 @ new2" and "\<forall>x \<in> set new2. fst x = c" by auto
  ultimately show ?case by auto
qed

text \<open>
  C13. Every backend request made during a run is made with the one client
  of the run, which carries the \<open>VAULT_TOKEN\<close> of the environment the
  process started with.
\<close>

theorem requests_use_startup_token:
  assumes "proc_run (logged b) (Booting e (s, [])) es (Serving c (s', log))"
  shows "\<forall>x \<in> set log. fst x = c \<and> e ''VAULT_TOKEN'' = Some (token (fst x))"
proof -
  from run_from_Booting [OF assms] obtain cfg where
    cfg: "load_config e = Inr cfg" and run: "proc_run (logged b) (Connecting (make_client cfg) (s, [])) es (Serving c (s', log))"
    by auto
  from run_from_Connecting [OF run] obtain rest where
    rest: "proc_run (logged b) (Serving (make_client cfg) (s, [])) rest (Serving c (s', log))"
    by auto
  from run_from_Serving [OF rest] have c: "c = make_client cfg" by auto
  from run_from_Serving_log_gen [OF rest refl] c have "\<forall>x \<in> set log. fst x = c"
    by auto
  moreover from cfg have "e ''VAULT_TOKEN'' = Some (vault_token cfg)"
    by (auto simp: load_config_def Let_def split: option.splits if_splits)
  ultimately show ?thesis by (simp add: c make_client_def)
qed

text \<open>
  C15. Start-up order: in a run that answers any request, the first event
  is the line \<open>Vault MCP Server running on stdio\<close> on standard error.
\<close>

theorem running_before_reply:
  assumes "proc_run b (Booting e s) es p" and "\<exists>ev \<in> set es. is_reply ev"
  shows "hd es = Stderr running_message"
  using run_from_Booting [OF assms(1)] assms(2)
  by (auto simp: is_reply_def dest!: run_from_Connecting)

text \<open>
  C30. The exit status tells how the process ended: status 1 only when
  start-up failed (a missing or empty token, or a failed connect), after
  exactly one line on standard error and no reply; status 0 only after the
  server came up, whose first event is the running line. No other status
  occurs.
\<close>

theorem exit_status:
  assumes "proc_run b (Booting e s) es (Exited n)"
  shows "(n = 1 \<and> (\<exists>m. es = [Stderr m])) \<or> (n = 0 \<and> hd es = Stderr running_message)"
  using run_from_Booting [OF assms]
  by (auto dest!: run_from_Connecting run_from_Serving)

section \<open>Example runs\<close>

text \<open>
  Concrete start-ups: an environment with only a token, a run that lists the
  tools, and a run that reads a secret through a logging backend.
\<close>

definition demo_env :: env where
  "demo_env v = (if v = ''VAULT_TOKEN'' then Some ''tok'' else None)"

lemma demo_config: "load_config demo_env = Inr \<lparr>vault_addr = ''http://127.0.0.1:8200'', vault_token = ''tok''\<rparr>"
  by (simp add: load_config_def demo_env_def env_or_def)

lemma demo_run_list:
  "proc_run (\<lambda>c s r. (Inr JNull, s)) (Booting demo_env (0::nat))
     [Stderr running_message, Reply ListTools (ToolsList TOOLS)]
     (Serving (make_client \<lparr>vault_addr = ''http://127.0.0.1:8200'', vault_token = ''tok''\<rparr>) 0)"
proof -
  let ?b = "\<lambda>c s r. (Inr JNull, s) :: (thrown + jsval) \<times> nat"
  let ?c = "make_client \<lparr>vault_addr = ''http://127.0.0.1:8200'', vault_token = ''tok''\<rparr>"
  have s3: "proc_run ?b (Serving ?c 0) ([Reply ListTools (ToolsList TOOLS)] @ []) (Serving ?c 0)"
    by (rule proc_run.run_step [OF proc_step.serve proc_run.run_nil]) (simp add: handle_request_def)
  have s2: "proc_run ?b (Connecting ?c 0) ([Stderr running_message] @ [Reply ListTools (ToolsList TOOLS)]) (Serving ?c 0)"
    using s3 by (intro proc_run.run_step [OF proc_step.connected]) simp
  have "proc_run ?b (Booting demo_env 0) ([] @ [Stderr running_message, Reply ListTools (ToolsList TOOLS)]) (Serving ?c 0)"
    using s2 by (intro proc_run.run_step [OF proc_step.boot_ok [OF demo_config]]) simp
  then show ?thesis by simp
qed

theorem no_reply_without_token_witness:
  "(\<lambda>v. None :: string option) ''VAULT_TOKEN'' = None
   \<and> proc_run (\<lambda>c s r. (Inr JNull, s)) (Booting (\<lambda>v. None) (0::nat)) [Stderr token_error] (Exited 1)
   \<and> [Stderr token_error] = [Stderr token_error]"
proof -
  let ?b = "\<lambda>c s r. (Inr JNull, s) :: (thrown + jsval) \<times> nat"
  have cfg: "load_config (\<lambda>v. None) = Inl token_error" by (simp add: load_config_def)
  have "proc_run ?b (Booting (\<lambda>v. None) 0) ([Stderr token_error] @ []) (Exited 1)"
    by (rule proc_run.run_step [OF proc_step.boot_rejected [OF cfg] proc_run.run_nil])
  then have run: "proc_run ?b (Booting (\<lambda>v. None) 0) [Stderr token_error] (Exited 1)" by simp
  have "([Stderr token_error] = [] \<and> (Exited 1 :: nat proc) = Booting (\<lambda>v. None) 0)
        \<or> ([Stderr token_error] = [Stderr token_error] \<and> (Exited 1 :: nat proc) = Exited 1)"
    using no_reply_without_token [OF _ run] by simp
  with run show ?thesis by simp
qed

theorem list_tools_reply_witness:
  "map name TOOLS = switch_names
   \<and> (\<exists>rq. tool_request ''vault_write'' (Some [(''path'', JStr ''secret/data/app''), (''data'', JObj [(''k'', JStr ''v'')])]) = Some rq
          \<and> request_well_typed rq)"
proof -
  have "\<exists>tools. ToolsList TOOLS = ToolsList tools \<and> map name tools = switch_names
           \<and> (\<forall>t \<in> set tools. \<forall>kvs. conforms (inputSchema t) (Some kvs) \<longrightarrow>
                 (\<exists>rq. tool_request (name t) (Some kvs) = Some rq \<and> request_well_typed rq))"
    by (rule list_tools_reply [OF demo_run_list]) simp
  then have n: "map name TOOLS = switch_names"
    and w: "\<forall>t \<in> set TOOLS. \<forall>kvs. conforms (inputSchema t) (Some kvs) \<longrightarrow>
              (\<exists>rq. tool_request (name t) (Some kvs) = Some rq \<and> request_well_typed rq)"
    by auto
  have m: "TOOLS ! 1 \<in> set TOOLS" and nm: "name (TOOLS ! 1) = ''vault_write''"
    by (simp_all add: TOOLS_def)
  have "conforms (inputSchema (TOOLS ! 1)) (Some [(''path'', JStr ''secret/data/app''), (''data'', JObj [(''k'', JStr ''v'')])])"
    by (simp add: TOOLS_def conforms_def path_param_def obj_get_def)
  with w m nm n show ?thesis
    by fastforce
qed

theorem running_before_reply_witness:
  "proc_run (\<lambda>c s r. (Inr JNull, s)) (Booting demo_env (0::nat))
     [Stderr running_message, Reply ListTools (ToolsList TOOLS)]
     (Serving (make_client \<lparr>vault_addr = ''http://127.0.0.1:8200'', vault_token = ''tok''\<rparr>) 0)
   \<and> hd [Stderr running_message, Reply ListTools (ToolsList TOOLS)] = Stderr running_message"
  using demo_run_list running_before_reply [OF demo_run_list] by (simp add: is_reply_def)

theorem default_endpoint_witness:
  "demo_env ''VAULT_ADDR'' = None
   \<and> load_config demo_env = Inr \<lparr>vault_addr = ''http://127.0.0.1:8200'', vault_token = ''tok''\<rparr>
   \<and> endpoint (make_client \<lparr>vault_addr = ''http://127.0.0.1:8200'', vault_token = ''tok''\<rparr>) = ''http://127.0.0.1:8200''"
proof -
  have a: "demo_env ''VAULT_ADDR'' = None" by (simp add: demo_env_def)
  show ?thesis using a demo_config default_endpoint [OF _ demo_config] by simp
qed

lemma demo_run_read:
  "proc_run (logged (\<lambda>c s r. (Inr (JObj []), s))) (Booting demo_env ((0::nat), []))
     [Stderr running_message,
      Reply (CallTool ''vault_read'' (Some [(''path'', JStr ''secret/a'')])) (ToolResult (text_result None))]
     (Serving (make_client \<lparr>vault_addr = ''http://127.0.0.1:8200'', vault_token = ''tok''\<rparr>)
        (0, [(make_client \<lparr>vault_addr = ''http://127.0.0.1:8200'', vault_token = ''tok''\<rparr>,
              VRead (JStr ''secret/a''))]))"
proof -
  let ?b = "logged (\<lambda>c s r. (Inr (JObj []), s) :: (thrown + jsval) \<times> nat)"
  let ?c = "make_client \<lparr>vault_addr = ''http://127.0.0.1:8200'', vault_token = ''tok''\<rparr>"
  let ?q = "CallTool ''vault_read'' (Some [(''path'', JStr ''secret/a'')])"
  have h: "handle_request ?b ?c ?q (0, []) = (ToolResult (text_result None), (0, [(?c, VRead (JStr ''secret/a''))]))"
    by (simp add: handle_request_def call_tool_def dispatch_def handle_vault_read_def obj_get_def
        json_stringify_def)
  have s3: "proc_run ?b (Serving ?c (0, [])) ([Reply ?q (ToolResult (text_result None))] @ [])
              (Serving ?c (0, [(?c, VRead (JStr ''secret/a''))]))"
    by (rule proc_run.run_step [OF proc_step.serve [OF h] proc_run.run_nil])
  have s2: "proc_run ?b (Connecting ?c (0, [])) ([Stderr running_message] @ [Reply ?q (ToolResult (text_result None))])
              (Serving ?c (0, [(?c, VRead (JStr ''secret/a''))]))"
    using s3 by (intro proc_run.run_step [OF proc_step.connected]) simp
  have "proc_run ?b (Booting demo_env (0, [])) ([] @ [Stderr running_message, Reply ?q (ToolResult (text_result None))])
              (Serving ?c (0, [(?c, VRead (JStr ''secret/a''))]))"
    using s2 by (intro proc_run.run_step [OF proc_step.boot_ok [OF demo_config]]) simp
  then show ?thesis by simp
qed

theorem requests_use_startup_token_witness:
  "proc_run (logged (\<lambda>c s r. (Inr (JObj []), s))) (Booting demo_env ((0::nat), []))
     [Stderr running_message,
      Reply (CallTool ''vault_read'' (Some [(''path'', JStr ''secret/a'')])) (ToolResult (text_result None))]
     (Serving (make_client \<lparr>vault_addr = ''http://127.0.0.1:8200'', vault_token = ''tok''\<rparr>)
        (0, [(make_client \<lparr>vault_addr = ''http://127.0.0.1:8200'', vault_token = ''tok''\<rparr>,
              VRead (JStr ''secret/a''))]))
   \<and> demo_env ''VAULT_TOKEN''
       = Some (token (make_client \<lparr>vault_addr = ''http://127.0.0.1:8200'', vault_token = ''tok''\<rparr>))"
  using demo_run_read requests_use_startup_token [OF demo_run_read]
  by (simp add: make_client_def)

theorem exit_status_witness:
  "proc_run (\<lambda>c s r. (Inr JNull, s)) (Booting demo_env (0::nat))
     [Stderr (''Fatal error: '' @ ''EPIPE'')] (Exited 1)
   \<and> ((1 = (1::nat) \<and> (\<exists>m. [Stderr (''Fatal error: '' @ ''EPIPE'')] = [Stderr m]))
        \<or> (1 = (0::nat) \<and> hd [Stderr (''Fatal error: '' @ ''EPIPE'')] = Stderr running_message))"
proof -
  let ?b = "\<lambda>c s r. (Inr JNull, s) :: (thrown + jsval) \<times> nat"
  let ?c = "make_client \<lparr>vault_addr = ''http://127.0.0.1:8200'', vault_token = ''tok''\<rparr>"
  have "proc_run ?b (Connecting ?c 0) ([Stderr (''Fatal error: '' @ ''EPIPE'')] @ []) (Exited 1)"
    by (rule proc_run.run_step [OF proc_step.connect_failed proc_run.run_nil])
  then have "proc_run ?b (Booting demo_env 0) ([] @ [Stderr (''Fatal error: '' @ ''EPIPE'')] @ []) (Exited 1)"
    by (rule proc_run.run_step [OF proc_step.boot_ok [OF demo_config]])
  then have run: "proc_run ?b (Booting demo_env 0) [Stderr (''Fatal error: '' @ ''EPIPE'')] (Exited 1)"
    by simp
  show ?thesis
    using run exit_status [OF run] by simp
qed

end
