(* ===== verification/Concurrency.thy ===== *)
theory Concurrency
  imports Server
begin

text \<open>
  Concurrent tool calls. The MCP SDK's \<open>Protocol\<close> invokes the CallTool
  handler of \<open>src/src/index.ts\<close> (lines 114--187) for each request as it
  arrives and does not wait for earlier calls to finish. The handler runs
  synchronously up to its one \<open>await\<close> on the client (lines 121, 135,
  148, 161), or throws before it (destructuring, unknown tool) and answers
  from its \<open>catch\<close> block at once; when the client's promise settles, the
  rest of the case and the \<open>catch\<close> block run to completion with no
  further suspension. Vault serves the requests in flight one at a time, in
  an order the server does not control, and the responses may arrive in
  any order.

  \<open>conc_step\<close> is that semantics on a record of the server's calls: the
  requests not yet started (\<open>queue\<close>, in transport order), the requests in
  flight, the settled ones whose continuation has not run, the replies
  written, and the backend's state. \<open>history\<close> records the order in which
  calls took effect (a history variable: no step reads it). The theorems
  show that every finished run answers exactly as running the calls one
  after another in the order of \<open>history\<close> (\<open>run_calls\<close>), a
  permutation of the calls, and that every run can finish while the
  backend answers.
\<close>

type_synonym call = "nat \<times> string \<times> tool_args"

record 's conc =
  vault_state :: 's
  queue :: "call list"
  inflight :: "(call \<times> vault_req) list"
  settled :: "(call \<times> vault_req \<times> (thrown + jsval)) list"
  replies :: "(nat \<times> call_result) list"
  history :: "call list"

definition conc_init :: "'s \<Rightarrow> call list \<Rightarrow> 's conc" where
  "conc_init s cs =
     \<lparr>vault_state = s, queue = cs, inflight = [], settled = [], replies = [], history = []\<rparr>"

text \<open>The continuation after the \<open>await\<close>: render the settled outcome, or catch its failure.\<close>

definition resume_reply :: "string \<Rightarrow> vault_req \<Rightarrow> thrown + jsval \<Rightarrow> call_result" where
  "resume_reply nm r res = catch_result nm (fst (after_request nm (req_path r) (res, ())))"

definition settled_reply :: "call \<times> vault_req \<times> (thrown + jsval) \<Rightarrow> nat \<times> call_result" where
  "settled_reply x = (case x of ((i, nm, args), r, res) \<Rightarrow> (i, resume_reply nm r res))"

inductive conc_step :: "'s backend \<Rightarrow> vault_client \<Rightarrow> 's conc \<Rightarrow> 's conc \<Rightarrow> bool"
  for b :: "'s backend" and c :: vault_client where
  start_rejected:
    "queue st = (i, nm, args) # q \<Longrightarrow> tool_request nm args = None \<Longrightarrow>
     conc_step b c st (st\<lparr>queue := q, replies := replies st @ [(i, error_result nm (rejection nm))],
                          history := history st @ [(i, nm, args)]\<rparr>)"
| start_request:
    "queue st = (i, nm, args) # q \<Longrightarrow> tool_request nm args = Some r \<Longrightarrow>
     conc_step b c st (st\<lparr>queue := q, inflight := inflight st @ [((i, nm, args), r)]\<rparr>)"
| serve:
    "inflight st = xs @ (k, r) # ys \<Longrightarrow> b c (vault_state st) r = (res, s') \<Longrightarrow>
     conc_step b c st (st\<lparr>vault_state := s', inflight := xs @ ys, settled := settled st @ [(k, r, res)],
                          history := history st @ [k]\<rparr>)"
| resume:
    "settled st = xs @ x # ys \<Longrightarrow>
     conc_step b c st (st\<lparr>settled := xs @ ys, replies := replies st @ [settled_reply x]\<rparr>)"

text \<open>The sequential reference: the calls handled one after another.\<close>

fun run_calls :: "'s backend \<Rightarrow> vault_client \<Rightarrow> 's \<Rightarrow> call list \<Rightarrow> (nat \<times> call_result) list \<times> 's" where
  "run_calls b c s [] = ([], s)"
| "run_calls b c s ((i, nm, args) # cs) =
     (case call_tool b c nm args s of
        (res, s1) \<Rightarrow> (case run_calls b c s1 cs of (rs, s2) \<Rightarrow> ((i, res) # rs, s2)))"

definition finished :: "'s conc \<Rightarrow> bool" where
  "finished st \<longleftrightarrow> queue st = [] \<and> inflight st = [] \<and> settled st = []"

text \<open>What is left to do: each queued call has three steps ahead, each call in flight two, each settled one.\<close>

definition conc_measure :: "'s conc \<Rightarrow> nat" where
  "conc_measure st = 3 * length (queue st) + 2 * length (inflight st) + length (settled st)"

section \<open>The invariant\<close>

definition conc_inv :: "'s backend \<Rightarrow> vault_client \<Rightarrow> 's \<Rightarrow> call list \<Rightarrow> 's conc \<Rightarrow> bool" where
  "conc_inv b c s0 cs st \<longleftrightarrow>
     mset (history st) + mset (map fst (inflight st)) + mset (queue st) = mset cs
     \<and> vault_state st = snd (run_calls b c s0 (history st))
     \<and> mset (replies st) + mset (map settled_reply (settled st)) = mset (fst (run_calls b c s0 (history st)))
     \<and> (\<forall>x \<in> set (inflight st). tool_request (fst (snd (fst x))) (snd (snd (fst x))) = Some (snd x))"

lemma run_calls_snoc:
  "run_calls b c s (h @ [(i, nm, args)]) =
     (case run_calls b c s h of
        (rs, s1) \<Rightarrow> (case call_tool b c nm args s1 of (res, s2) \<Rightarrow> (rs @ [(i, res)], s2)))"
  by (induction b c s h rule: run_calls.induct) (simp_all split: prod.split)

lemma call_tool_request:
  "tool_request nm args = Some r \<Longrightarrow> b c s r = (res, s') \<Longrightarrow> call_tool b c nm args s = (resume_reply nm r res, s')"
  by (simp add: call_tool_eq resume_reply_def after_request_def split: sum.split)

lemma call_tool_rejected:
  "tool_request nm args = None \<Longrightarrow> call_tool b c nm args s = (error_result nm (rejection nm), s)"
  by (simp add: call_tool_eq)

lemma conc_inv_init: "conc_inv b c s0 cs (conc_init s0 cs)"
  by (simp add: conc_inv_def conc_init_def)

lemma conc_inv_step:
  assumes "conc_step b c st st'" "conc_inv b c s0 cs st"
  shows "conc_inv b c s0 cs st'"
  using assms
proof (induction rule: conc_step.induct)
  case (start_rejected st i nm args q)
  then show ?case
    by (auto simp: conc_inv_def run_calls_snoc call_tool_rejected split: prod.split)
next
  case (start_request st i nm args q r)
  then show ?case
    by (auto simp: conc_inv_def)
next
  case (serve st xs k r ys res s')
  obtain i nm args where k: "k = (i, nm, args)"
    by (cases k) auto
  have "tool_request nm args = Some r"
    using serve.prems serve.hyps(1) k by (auto simp: conc_inv_def)
  then have "call_tool b c nm args (vault_state st) = (resume_reply nm r res, s')"
    using serve.hyps(2) by (rule call_tool_request)
  with serve k show ?case
    by (auto simp: conc_inv_def run_calls_snoc settled_reply_def split: prod.split)
next
  case (resume st xs x ys)
  then show ?case
    by (auto simp: conc_inv_def)
qed

lemma conc_inv_reach:
  "(conc_step b c)\<^sup>*\<^sup>* (conc_init s0 cs) st \<Longrightarrow> conc_inv b c s0 cs st"
  by (induction rule: rtranclp_induct) (auto intro: conc_inv_init conc_inv_step)

lemma run_calls_ids: "map fst (fst (run_calls b c s cs)) = map fst cs"
  by (induction b c s cs rule: run_calls.induct) (auto split: prod.splits)

lemma drain: "\<exists>st'. (conc_step b c)\<^sup>*\<^sup>* st st' \<and> finished st'"
proof (induction "conc_measure st" arbitrary: st rule: less_induct)
  case less
  show ?case
  proof (cases "settled st")
    case (Cons x ys)
    let ?st1 = "st\<lparr>settled := [] @ ys, replies := replies st @ [settled_reply x]\<rparr>"
    have "conc_step b c st ?st1"
      by (rule resume) (simp add: Cons)
    moreover obtain st' where "(conc_step b c)\<^sup>*\<^sup>* ?st1 st'" "finished st'"
      using less[of ?st1] Cons by (auto simp: conc_measure_def)
    ultimately show ?thesis
      by (meson converse_rtranclp_into_rtranclp)
  next
    case Nil
    show ?thesis
    proof (cases "inflight st")
      case (Cons kr ys)
      obtain k r where kr: "kr = (k, r)" by (cases kr) auto
      obtain res s' where b: "b c (vault_state st) r = (res, s')" by (cases "b c (vault_state st) r") auto
      let ?st1 = "st\<lparr>vault_state := s', inflight := [] @ ys, settled := settled st @ [(k, r, res)],
                     history := history st @ [k]\<rparr>"
      have "conc_step b c st ?st1"
        by (rule serve) (simp_all add: Cons kr b)
      moreover obtain st' where "(conc_step b c)\<^sup>*\<^sup>* ?st1 st'" "finished st'"
        using less[of ?st1] Cons Nil by (auto simp: conc_measure_def)
      ultimately show ?thesis
        by (meson converse_rtranclp_into_rtranclp)
    next
      case Nil2: Nil
      show ?thesis
      proof (cases "queue st")
        case Nil
        then show ?thesis
          using Nil2 \<open>settled st = []\<close> by (auto simp: finished_def)
      next
        case (Cons k q)
        obtain i nm args where k: "k = (i, nm, args)" by (cases k) auto
        show ?thesis
        proof (cases "tool_request nm args")
          case None
          let ?st1 = "st\<lparr>queue := q, replies := replies st @ [(i, error_result nm (rejection nm))],
                         history := history st @ [(i, nm, args)]\<rparr>"
          have "conc_step b c st ?st1"
            by (rule start_rejected) (simp_all add: Cons k None)
          moreover obtain st' where "(conc_step b c)\<^sup>*\<^sup>* ?st1 st'" "finished st'"
            using less[of ?st1] Cons by (auto simp: conc_measure_def)
          ultimately show ?thesis
            by (meson converse_rtranclp_into_rtranclp)
        next
          case (Some r)
          let ?st1 = "st\<lparr>queue := q, inflight := inflight st @ [((i, nm, args), r)]\<rparr>"
          have "conc_step b c st ?st1"
            by (rule start_request) (simp_all add: Cons k Some)
          moreover obtain st' where "(conc_step b c)\<^sup>*\<^sup>* ?st1 st'" "finished st'"
            using less[of ?st1] Cons Nil2 by (auto simp: conc_measure_def)
          ultimately show ?thesis
            by (meson converse_rtranclp_into_rtranclp)
        qed
      qed
    qed
  qed
qed

section \<open>Properties of concurrent calls\<close>

text \<open>
  C22. Concurrent calls are linearizable: when a run of the server on the
  requests \<open>cs\<close> has answered all of them, its replies and the backend's
  final state are those of handling the same requests one after another,
  in some order (the order in which they reached the backend).
\<close>

theorem concurrent_calls_linearizable:
  assumes "(conc_step b c)\<^sup>*\<^sup>* (conc_init s0 cs) st" "finished st"
  shows "\<exists>order. mset order = mset cs
           \<and> mset (replies st) = mset (fst (run_calls b c s0 order))
           \<and> vault_state st = snd (run_calls b c s0 order)"
  using conc_inv_reach[OF assms(1)] assms(2)
  by (auto simp: conc_inv_def finished_def)

text \<open>
  C23. Every request is answered exactly once: when a run has finished,
  the request ids of the replies are those of the requests received, each
  as often as it was received.
\<close>

theorem every_call_answered_once:
  assumes "(conc_step b c)\<^sup>*\<^sup>* (conc_init s0 cs) st" "finished st"
  shows "mset (map fst (replies st)) = mset (map fst cs)"
proof -
  have i: "conc_inv b c s0 cs st"
    by (rule conc_inv_reach[OF assms(1)])
  then have r: "mset (replies st) = mset (fst (run_calls b c s0 (history st)))"
    and h: "mset (history st) = mset cs"
    using assms(2) by (simp_all add: conc_inv_def finished_def)
  have "mset (map fst (replies st)) = image_mset fst (mset (fst (run_calls b c s0 (history st))))"
    using r by simp
  also have "\<dots> = mset (map fst (fst (run_calls b c s0 (history st))))"
    by simp
  also have "\<dots> = image_mset fst (mset (history st))"
    by (simp add: run_calls_ids)
  also have "\<dots> = mset (map fst cs)"
    using h by simp
  finally show ?thesis .
qed

section \<open>An interleaved run\<close>

text \<open>
  A backend holding one secret, and two requests: a write received first
  and a read received second. Vault serves the read before the write, so the
  read sees the old secret: the run answers as the sequential order
  read-then-write, not the order of arrival.
\<close>

definition cell_backend :: "jsval backend" where
  "cell_backend c s r =
     (case r of
        VRead p \<Rightarrow> (Inr (JObj [(''data'', s)]), s)
      | VWrite p body \<Rightarrow> (Inr JNull, obj_get (case body of JObj kvs \<Rightarrow> kvs | _ \<Rightarrow> []) ''data'')
      | VList p \<Rightarrow> (Inr (JObj [(''data'', JObj [(''keys'', JArr [])])]), s)
      | VDelete p \<Rightarrow> (Inr JNull, JNull))"

definition demo_client :: vault_client where
  "demo_client = \<lparr>apiVersion = ''v1'', endpoint = ''http://127.0.0.1:8200'', token = ''t''\<rparr>"

definition demo_calls :: "call list" where
  "demo_calls =
     [(1, ''vault_write'', Some [(''path'', JStr ''kv''), (''data'', JStr ''new'')]),
      (2, ''vault_read'', Some [(''path'', JStr ''kv'')])]"

definition demo_final :: "jsval conc" where
  "demo_final =
     \<lparr>vault_state = JStr ''new'', queue = [], inflight = [], settled = [],
      replies = [(2, text_result (Some (quote_json_string ''old''))), (1, text_result (Some ''null''))],
      history = rev demo_calls\<rparr>"

lemma demo_run:
  "(conc_step cell_backend demo_client)\<^sup>*\<^sup>* (conc_init (JStr ''old'') demo_calls) demo_final"
proof -
  let ?c1 = "(1::nat, ''vault_write'', Some [(''path'', JStr ''kv''), (''data'', JStr ''new'')])"
  let ?c2 = "(2::nat, ''vault_read'', Some [(''path'', JStr ''kv'')])"
  let ?r1 = "VWrite (JStr ''kv'') (JObj [(''data'', JStr ''new'')])"
  let ?r2 = "VRead (JStr ''kv'')"
  let ?S = "conc_step cell_backend demo_client"
  define st0 where "st0 = conc_init (JStr ''old'') demo_calls"
  define st1 where "st1 = st0\<lparr>queue := [?c2], inflight := inflight st0 @ [(?c1, ?r1)]\<rparr>"
  define st2 where "st2 = st1\<lparr>queue := [], inflight := inflight st1 @ [(?c2, ?r2)]\<rparr>"
  define st3 where "st3 = st2\<lparr>vault_state := JStr ''old'', inflight := [(?c1, ?r1)] @ [],
                      settled := settled st2 @ [(?c2, ?r2, Inr (JObj [(''data'', JStr ''old'')]))],
                      history := history st2 @ [?c2]\<rparr>"
  define st4 where "st4 = st3\<lparr>vault_state := JStr ''new'', inflight := [] @ [],
                      settled := settled st3 @ [(?c1, ?r1, Inr JNull)], history := history st3 @ [?c1]\<rparr>"
  define st5 where "st5 = st4\<lparr>settled := [] @ [(?c1, ?r1, Inr JNull)],
                      replies := replies st4 @ [settled_reply (?c2, ?r2, Inr (JObj [(''data'', JStr ''old'')]))]\<rparr>"
  define st6 where "st6 = st5\<lparr>settled := [] @ [], replies := replies st5 @ [settled_reply (?c1, ?r1, Inr JNull)]\<rparr>"
  have "?S st0 st1"
    unfolding st1_def by (rule start_request) (simp_all add: st0_def conc_init_def demo_calls_def tool_request_def obj_get_def)
  moreover have "?S st1 st2"
    unfolding st2_def by (rule start_request) (simp_all add: st1_def st0_def conc_init_def demo_calls_def tool_request_def obj_get_def)
  moreover have "?S st2 st3"
    unfolding st3_def by (rule serve) (simp_all add: st2_def st1_def st0_def conc_init_def cell_backend_def obj_get_def)
  moreover have "?S st3 st4"
    unfolding st4_def by (rule serve) (simp_all add: st3_def st2_def st1_def st0_def conc_init_def cell_backend_def obj_get_def)
  moreover have "?S st4 st5"
    unfolding st5_def by (rule resume) (simp add: st4_def st3_def st2_def st1_def st0_def conc_init_def)
  moreover have "?S st5 st6"
    unfolding st6_def by (rule resume) (simp add: st5_def)
  ultimately have "?S\<^sup>*\<^sup>* st0 st6"
    by (meson rtranclp.rtrancl_into_rtrancl rtranclp.rtrancl_refl)
  moreover have "st6 = demo_final"
    by (simp add: st6_def st5_def st4_def st3_def st2_def st1_def st0_def conc_init_def demo_final_def
        demo_calls_def settled_reply_def resume_reply_def catch_result_def render_response_def json_stringify_def obj_get_def)
  ultimately show ?thesis
    by (simp add: st0_def)
qed

lemma demo_finished: "finished demo_final"
  by (simp add: demo_final_def finished_def)

theorem concurrent_calls_linearizable_witness:
  "\<exists>order. mset order = mset demo_calls
     \<and> mset [(2, text_result (Some (quote_json_string ''old''))), (1, text_result (Some ''null''))]
         = mset (fst (run_calls cell_backend demo_client (JStr ''old'') order))
     \<and> JStr ''new'' = snd (run_calls cell_backend demo_client (JStr ''old'') order)"
  using concurrent_calls_linearizable[OF demo_run demo_finished]
  by (simp add: demo_final_def)

theorem every_call_answered_once_witness:
  "mset (map fst (replies demo_final)) = mset [1, 2]"
  using every_call_answered_once[OF demo_run demo_finished]
  by (simp add: demo_calls_def)

end
