(* ===== verification/KvBackend.thy ===== *)
theory KvBackend
  imports Concurrency JsonParse "HOL-Library.AList" "HOL-Library.Char_ord" "HOL-Library.List_Lexorder"
begin

text \<open>
  Reference backends: Vault's key-value secrets engine as its HTTP API
  documents it, mounted at \<open>secret/\<close>. Vault is not part of the repository;
  these models stand for the server behind the abstract \<open>'s backend\<close> of
  the \<open>Vault\<close> theory, so that the handlers of \<open>src/src/index.ts\<close> can be
  followed end to end.
  \<^item> The wire: node-vault sends \<open>JSON.stringify(body)\<close>, which Vault decodes
    into Go maps (a repeated key keeps its last value) and encodes back
    with sorted keys (\<open>go_json\<close> after \<open>canon\<close>).
  \<^item> Every response carries Vault's envelope (\<open>vault_body\<close>: request id,
    lease fields, \<open>data\<close>, wrap info, warnings, auth, mount type); the
    request ids and timestamps are the functions \<open>kv_rid\<close> and
    \<open>kv_time\<close> of the state's request counter \<open>kv_seq\<close>, which every
    request advances, so every property holds whatever ids and clock the
    server has.
  \<^item> Version 2 (\<open>kv2_backend\<close>): secrets live under \<open>secret/data/<name>\<close>,
    are written as \<open>{data: {...}}\<close> (the envelope the write handler adds,
    line 134) and answered with the new version's metadata
    (\<open>created_time\<close>, \<open>custom_metadata\<close>, \<open>deletion_time\<close>,
    \<open>destroyed\<close>, \<open>version\<close>), read back as \<open>{data, metadata}\<close>,
    listed by folder under \<open>secret/metadata/<folder>\<close> (Vault adds the
    trailing slash of a LIST path), and deleted softly (the metadata stays,
    the latest version reads as 404).
  \<^item> Version 1 (\<open>kv1_backend\<close>): the body written under
    \<open>secret/<name>\<close> is stored as decoded and read back as \<open>data\<close>; a
    path outside the mount has no route.
  A failed request rejects with node-vault's \<open>Status <code>\<close> error, or
  with Vault's own message where Vault sends one.
\<close>

section \<open>Paths and errors\<close>

datatype kv_path = KvData string | KvMetadata string | KvOther

definition strip_prefix :: "string \<Rightarrow> string \<Rightarrow> string option" where
  "strip_prefix pre s = (if take (length pre) s = pre then Some (drop (length pre) s) else None)"

definition parse_kv_path :: "string \<Rightarrow> kv_path" where
  "parse_kv_path p =
     (case strip_prefix ''secret/data/'' p of
        Some n \<Rightarrow> KvData n
      | None \<Rightarrow> (case strip_prefix ''secret/metadata/'' p of Some n \<Rightarrow> KvMetadata n | None \<Rightarrow> KvOther))"

definition status_error :: "nat \<Rightarrow> thrown" where
  "status_error code = ErrorObj (''Status '' @ nat_digits code)"

definition no_route :: "string \<Rightarrow> thrown" where
  "no_route p = ErrorObj (''no handler for route '' @ [dquote] @ p @ [dquote] @ ''. route entry not found.'')"

section \<open>The wire\<close>

text \<open>
  A JSON value decoded by Go's \<open>encoding/json\<close> into maps and encoded
  again: the last of repeated keys wins and keys come out sorted bytewise.
\<close>

function go_json :: "jsval \<Rightarrow> jsval" where
  "go_json (JArr vs) = JArr (map go_json vs)"
| "go_json (JObj kvs) = JObj (sort_key fst (AList.clearjunk (rev (map (\<lambda>kv. (fst kv, go_json (snd kv))) kvs))))"
| "go_json JUndefined = JUndefined"
| "go_json JNull = JNull"
| "go_json (JBool b) = JBool b"
| "go_json (JNum i) = JNum i"
| "go_json (JStr s) = JStr s"
  by pat_completeness auto
termination
  by (relation "measure size") (auto dest: size_less_JArr size_snd_less_JObj)

record vault_clock =
  kv_seq :: nat
  kv_time :: "nat \<Rightarrow> string"
  kv_rid :: "nat \<Rightarrow> string"

definition now :: "'a vault_clock_scheme \<Rightarrow> string" where
  "now st = kv_time st (kv_seq st)"

definition tick :: "'a vault_clock_scheme \<Rightarrow> 'a vault_clock_scheme" where
  "tick st = st\<lparr>kv_seq := Suc (kv_seq st)\<rparr>"

text \<open>Vault's response body (\<open>logical.HTTPResponse\<close>, fields in struct order) around \<open>data\<close>.\<close>

definition vault_body :: "'a vault_clock_scheme \<Rightarrow> jsval \<Rightarrow> jsval" where
  "vault_body st d =
     JObj [(''request_id'', JStr (kv_rid st (kv_seq st))), (''lease_id'', JStr ''''),
           (''renewable'', JBool False), (''lease_duration'', JNum 0), (''data'', d),
           (''wrap_info'', JNull), (''warnings'', JNull), (''auth'', JNull), (''mount_type'', JStr ''kv'')]"

section \<open>Version 2\<close>

record kv_secret =
  kv_version :: nat
  kv_created :: string
  kv_data :: "jsval option"

type_synonym kv_store = "(string \<times> kv_secret) list"

record kv2_state = vault_clock +
  kv2_secrets :: kv_store

text \<open>The folder a LIST path names: Vault appends the trailing slash.\<close>

definition folder :: "string \<Rightarrow> string" where
  "folder pre = (if pre = [] \<or> last pre = CHR ''/'' then pre else pre @ ''/'')"

text \<open>The keys a list request returns: the next path segment of every name under the folder, folders with their slash.\<close>

definition list_key :: "string \<Rightarrow> string" where
  "list_key r = (if CHR ''/'' \<in> set r then takeWhile (\<lambda>ch. ch \<noteq> CHR ''/'') r @ ''/'' else r)"

definition list_keys :: "string \<Rightarrow> string list \<Rightarrow> string list" where
  "list_keys pre names =
     sort (remdups (List.map_filter (\<lambda>n. map_option list_key (strip_prefix (folder pre) n)) names))"

definition kv2_meta :: "string \<Rightarrow> nat \<Rightarrow> jsval" where
  "kv2_meta t v =
     JObj [(''created_time'', JStr t), (''custom_metadata'', JNull), (''deletion_time'', JStr ''''),
           (''destroyed'', JBool False), (''version'', JNum (int v))]"

definition kv2_read_body :: "kv_secret \<Rightarrow> jsval \<Rightarrow> jsval" where
  "kv2_read_body sec d = JObj [(''data'', d), (''metadata'', kv2_meta (kv_created sec) (kv_version sec))]"

definition kv2_next_version :: "kv_store \<Rightarrow> string \<Rightarrow> nat" where
  "kv2_next_version m n = Suc (case map_of m n of Some sec \<Rightarrow> kv_version sec | None \<Rightarrow> 0)"

definition kv2_read :: "kv2_state \<Rightarrow> string \<Rightarrow> (thrown + jsval) \<times> kv2_state" where
  "kv2_read st p =
     (case parse_kv_path p of
        KvData n \<Rightarrow>
          (case map_of (kv2_secrets st) n of
             Some sec \<Rightarrow> (case kv_data sec of
                            Some d \<Rightarrow> (Inr (vault_body st (kv2_read_body sec d)), st)
                          | None \<Rightarrow> (Inl (status_error 404), st))
           | None \<Rightarrow> (Inl (status_error 404), st))
      | _ \<Rightarrow> (Inl (status_error 404), st))"

definition kv2_write :: "kv2_state \<Rightarrow> string \<Rightarrow> jsval \<Rightarrow> (thrown + jsval) \<times> kv2_state" where
  "kv2_write st p body =
     (case parse_kv_path p of
        KvData n \<Rightarrow>
          (case get_member body ''data'' of
             Inr (JObj kvs) \<Rightarrow>
               (let v = kv2_next_version (kv2_secrets st) n
                in (Inr (vault_body st (kv2_meta (now st) v)),
                    st\<lparr>kv2_secrets := AList.update n \<lparr>kv_version = v, kv_created = now st, kv_data = Some (JObj kvs)\<rparr>
                                       (kv2_secrets st)\<rparr>))
           | _ \<Rightarrow> (Inl (status_error 400), st))
      | _ \<Rightarrow> (Inl (status_error 405), st))"

definition kv2_list :: "kv2_state \<Rightarrow> string \<Rightarrow> (thrown + jsval) \<times> kv2_state" where
  "kv2_list st p =
     (case parse_kv_path p of
        KvMetadata pre \<Rightarrow>
          (let ks = list_keys pre (map fst (kv2_secrets st))
           in if ks = [] then (Inl (status_error 404), st)
              else (Inr (vault_body st (JObj [(''keys'', JArr (map JStr ks))])), st))
      | _ \<Rightarrow> (Inl (status_error 405), st))"

definition kv2_delete :: "kv2_state \<Rightarrow> string \<Rightarrow> (thrown + jsval) \<times> kv2_state" where
  "kv2_delete st p =
     (case parse_kv_path p of
        KvData n \<Rightarrow>
          (Inr JUndefined,
           (case map_of (kv2_secrets st) n of
              Some sec \<Rightarrow> st\<lparr>kv2_secrets := AList.update n (sec\<lparr>kv_data := None\<rparr>) (kv2_secrets st)\<rparr>
            | None \<Rightarrow> st))
      | _ \<Rightarrow> (Inl (status_error 405), st))"

text \<open>A request whose path is not a string cannot name a secret.\<close>

definition kv2_backend :: "kv2_state backend" where
  "kv2_backend c st r =
     apsnd tick
       (case r of
          VRead (JStr p) \<Rightarrow> kv2_read st p
        | VWrite (JStr p) body \<Rightarrow> kv2_write st p (go_json (canon body))
        | VList (JStr p) \<Rightarrow> kv2_list st p
        | VDelete (JStr p) \<Rightarrow> kv2_delete st p
        | _ \<Rightarrow> (Inl (status_error 404), st))"

section \<open>Version 1\<close>

record kv1_state = vault_clock +
  kv1_secrets :: "(string \<times> jsval) list"

definition kv1_op :: "kv1_state \<Rightarrow> vault_req \<Rightarrow> string \<Rightarrow> (thrown + jsval) \<times> kv1_state" where
  "kv1_op st r n =
     (case r of
        VRead _ \<Rightarrow>
          (case map_of (kv1_secrets st) n of
             Some d \<Rightarrow> (Inr (vault_body st d), st)
           | None \<Rightarrow> (Inl (status_error 404), st))
      | VWrite _ body \<Rightarrow> (Inr JUndefined, st\<lparr>kv1_secrets := AList.update n (go_json (canon body)) (kv1_secrets st)\<rparr>)
      | VDelete _ \<Rightarrow> (Inr JUndefined, st\<lparr>kv1_secrets := AList.delete n (kv1_secrets st)\<rparr>)
      | VList _ \<Rightarrow>
          (let ks = list_keys n (map fst (kv1_secrets st))
           in if ks = [] then (Inl (status_error 404), st)
              else (Inr (vault_body st (JObj [(''keys'', JArr (map JStr ks))])), st)))"

definition kv1_backend :: "kv1_state backend" where
  "kv1_backend c st r =
     apsnd tick
       (case req_path r of
          JStr p \<Rightarrow> (case strip_prefix ''secret/'' p of
                      Some n \<Rightarrow> kv1_op st r n
                    | None \<Rightarrow> (Inl (no_route p), st))
        | _ \<Rightarrow> (Inl (status_error 404), st))"

section \<open>Requests through the handlers\<close>

lemma map_of_update: "map_of (AList.update k v al) = (map_of al)(k \<mapsto> v)"
  by (rule update_conv')

lemma strip_prefix_append [simp]: "strip_prefix pre (pre @ s) = Some s"
  by (simp add: strip_prefix_def)

text \<open>What the handlers read from a response: its \<open>data\<close> member.\<close>

lemma vault_body_data [simp]: "get_member (vault_body st d) ''data'' = Inr d"
  by (simp add: vault_body_def obj_get_def)

text \<open>The write handler's envelope crosses the wire as one \<open>data\<close> key around the decoded object.\<close>

lemma wire_envelope: "go_json (canon (JObj [(''data'', JObj kvs)])) = JObj [(''data'', go_json (canon (JObj kvs)))]"
  by (simp add: own_keys_order_def is_array_index_def is_digit_char_def)

lemma go_json_canon_obj:
  obtains kvs' where "go_json (canon (JObj kvs)) = JObj kvs'"
  by simp

lemmas kv_defs = kv2_backend_def kv2_read_def kv2_write_def kv2_list_def kv2_delete_def
  kv2_read_body_def kv1_backend_def kv1_op_def tick_def

lemmas request_defs = call_tool_eq tool_request_def obj_get_def resume_reply_def
  render_response_def catch_result_def

definition write_call :: "nat \<Rightarrow> string \<Rightarrow> jsval \<Rightarrow> call" where
  "write_call i p d = (i, ''vault_write'', Some [(''path'', JStr p), (''data'', d)])"

definition path_call :: "nat \<Rightarrow> string \<Rightarrow> string \<Rightarrow> call" where
  "path_call i nm p = (i, nm, Some [(''path'', JStr p)])"

text \<open>A server state for the examples: a fixed clock and request ids numbered by the counter.\<close>

definition demo_kv2 :: "kv_store \<Rightarrow> kv2_state" where
  "demo_kv2 m = \<lparr>kv_seq = 0, kv_time = (\<lambda>k. ''2026-01-01T00:00:00Z''), kv_rid = (\<lambda>k. ''req-'' @ nat_digits k),
                 kv2_secrets = m\<rparr>"

text \<open>
  C24. On a version 2 mount, a secret written through \<open>vault_write\<close> is
  read back through \<open>vault_read\<close>: the write answers with Vault's whole
  response around the new version's metadata (created now, not deleted,
  not destroyed), the read with the written object, as Vault stores it, and
  the same metadata.
\<close>

theorem kv2_write_then_read:
  assumes "parse_kv_path p = KvData n"
  shows "fst (run_calls kv2_backend c st [write_call i p (JObj kvs), path_call j ''vault_read'' p]) =
           [(i, text_result (json_stringify
                  (vault_body st (kv2_meta (now st) (kv2_next_version (kv2_secrets st) n))))),
            (j, text_result (json_stringify
                  (JObj [(''data'', go_json (canon (JObj kvs))),
                         (''metadata'', kv2_meta (now st) (kv2_next_version (kv2_secrets st) n))])))]"
proof -
  obtain kvs' where o: "go_json (canon (JObj kvs)) = JObj kvs'"
    by (rule go_json_canon_obj)
  show ?thesis
    using assms
    by (simp add: write_call_def path_call_def request_defs kv_defs map_of_update Let_def wire_envelope o
        now_def del: canon.simps go_json.simps)
qed

theorem kv2_write_then_read_witness:
  "fst (run_calls kv2_backend demo_client (demo_kv2 [])
     [write_call 1 ''secret/data/app'' (JObj [(''k'', JStr ''v'')]), path_call 2 ''vault_read'' ''secret/data/app''])
   = [(1, text_result (json_stringify (vault_body (demo_kv2 []) (kv2_meta ''2026-01-01T00:00:00Z'' 1)))),
      (2, text_result (json_stringify
             (JObj [(''data'', JObj [(''k'', JStr ''v'')]), (''metadata'', kv2_meta ''2026-01-01T00:00:00Z'' 1)])))]"
  using kv2_write_then_read[of "''secret/data/app''" "''app''" demo_client "demo_kv2 []" 1 "[(''k'', JStr ''v'')]" 2]
  by (simp add: parse_kv_path_def strip_prefix_def kv2_next_version_def now_def demo_kv2_def
      own_keys_order_def is_array_index_def is_digit_char_def)

text \<open>
  C25. On a version 2 mount, a secret deleted through \<open>vault_delete\<close> can
  no longer be read: the delete reports success, and a following
  \<open>vault_read\<close> is answered with the error result for Vault's 404.
\<close>

theorem kv2_delete_then_read:
  assumes "parse_kv_path p = KvData n"
  shows "fst (run_calls kv2_backend c st [path_call i ''vault_delete'' p, path_call j ''vault_read'' p]) =
           [(i, text_result (Some (delete_message (JStr p)))),
            (j, error_result ''vault_read'' (status_error 404))]"
  using assms
  by (cases "map_of (kv2_secrets st) n") (simp_all add: path_call_def request_defs kv_defs map_of_update)

theorem kv2_delete_then_read_witness:
  "fst (run_calls kv2_backend demo_client
          (demo_kv2 [(''app'', \<lparr>kv_version = 3, kv_created = ''2025-12-31T00:00:00Z'', kv_data = Some (JObj [])\<rparr>)])
          [path_call 1 ''vault_delete'' ''secret/data/app'', path_call 2 ''vault_read'' ''secret/data/app''])
   = [(1, text_result (Some (delete_message (JStr ''secret/data/app'')))),
      (2, error_result ''vault_read'' (status_error 404))]"
  using kv2_delete_then_read[of "''secret/data/app''" "''app''" demo_client
      "demo_kv2 [(''app'', \<lparr>kv_version = 3, kv_created = ''2025-12-31T00:00:00Z'', kv_data = Some (JObj [])\<rparr>)]" 1 2]
  by (simp add: parse_kv_path_def strip_prefix_def)

lemma folder_dir: "d \<noteq> [] \<Longrightarrow> last d \<noteq> CHR ''/'' \<Longrightarrow> folder d = d @ ''/''"
  by (simp add: folder_def)

lemma list_keys_mem:
  assumes "folder pre @ key \<in> set names" "CHR ''/'' \<notin> set key"
  shows "key \<in> set (list_keys pre names)"
proof -
  have "list_key key = key"
    using assms(2) by (simp add: list_key_def)
  then have "Some key = (\<lambda>n. map_option list_key (strip_prefix (folder pre) n)) (folder pre @ key)"
    by simp
  with assms(1) show ?thesis
    by (auto simp: list_keys_def List.map_filter_def intro!: image_eqI[where x = "folder pre @ key"])
qed

text \<open>
  C26. On a version 2 mount, a secret written through \<open>vault_write\<close> is
  listed by \<open>vault_list\<close> on its folder, named without the trailing
  slash as users write it: the list answers with a \<open>keys\<close> array that
  holds the secret's key.
\<close>

theorem kv2_list_after_write:
  assumes "CHR ''/'' \<notin> set key" and "d \<noteq> []" and "last d \<noteq> CHR ''/''"
  shows "\<exists>w ks. key \<in> set ks \<and>
           fst (run_calls kv2_backend c st
                  [write_call i (''secret/data/'' @ d @ ''/'' @ key) (JObj kvs),
                   path_call j ''vault_list'' (''secret/metadata/'' @ d)])
             = [(i, w), (j, text_result (json_stringify (JObj [(''keys'', JArr (map JStr ks))])))]"
proof -
  obtain kvs' where o: "go_json (canon (JObj kvs)) = JObj kvs'"
    by (rule go_json_canon_obj)
  let ?n = "d @ ''/'' @ key"
  let ?m = "AList.update ?n \<lparr>kv_version = kv2_next_version (kv2_secrets st) ?n, kv_created = now st,
                              kv_data = Some (JObj kvs')\<rparr> (kv2_secrets st)"
  have "folder d @ key \<in> set (map fst ?m)"
    using dom_update[of ?n _ "kv2_secrets st"] folder_dir[OF assms(2,3)]
    by (metis (no_types) append_assoc append_Cons append_Nil insertI1 insert_is_Un list.set_map)
  then have m: "key \<in> set (list_keys d (map fst ?m))"
    using assms(1) by (rule list_keys_mem)
  then have "list_keys d (map fst ?m) \<noteq> []"
    by auto
  with m show ?thesis
    by (simp add: write_call_def path_call_def request_defs kv_defs Let_def parse_kv_path_def strip_prefix_def
        wire_envelope o del: canon.simps go_json.simps)
       blast
qed

theorem kv2_list_after_write_witness:
  "\<exists>w ks. ''db'' \<in> set ks \<and>
     fst (run_calls kv2_backend demo_client
            (demo_kv2 [(''apple'', \<lparr>kv_version = 1, kv_created = ''2025-12-31T00:00:00Z'', kv_data = None\<rparr>)])
            [write_call 1 (''secret/data/'' @ ''app'' @ ''/'' @ ''db'') (JObj []),
             path_call 2 ''vault_list'' (''secret/metadata/'' @ ''app'')])
       = [(1, w), (2, text_result (json_stringify (JObj [(''keys'', JArr (map JStr ks))])))]"
proof -
  have "CHR ''/'' \<notin> set ''db''" "''app'' \<noteq> []" "last ''app'' \<noteq> CHR ''/''"
    by simp_all
  then show ?thesis
    by (rule kv2_list_after_write)
qed

text \<open>
  C27. On a version 1 mount the envelope the write handler adds for
  version 2 (line 134) is stored as part of the secret: a secret written
  through \<open>vault_write\<close> to \<open>secret/<name>\<close> reads back through
  \<open>vault_read\<close> nested under an extra \<open>data\<close> key, as Vault stores it.
\<close>

theorem kv1_envelope_stored:
  assumes "strip_prefix ''secret/'' p = Some n"
  shows "fst (run_calls kv1_backend c st [write_call i p (JObj kvs), path_call j ''vault_read'' p]) =
           [(i, text_result None),
            (j, text_result (json_stringify (JObj [(''data'', go_json (canon (JObj kvs)))])))]"
  using assms
  by (simp add: write_call_def path_call_def request_defs kv_defs map_of_update json_stringify_def wire_envelope
      del: canon.simps go_json.simps)

theorem kv1_envelope_stored_witness:
  "fst (run_calls kv1_backend demo_client
          \<lparr>kv_seq = 0, kv_time = (\<lambda>k. ''2026-01-01T00:00:00Z''), kv_rid = (\<lambda>k. ''req''), kv1_secrets = []\<rparr>
          [write_call 1 ''secret/app'' (JObj [(''b'', JNum 2), (''a'', JNum 1)]), path_call 2 ''vault_read'' ''secret/app''])
   = [(1, text_result None),
      (2, text_result (json_stringify (JObj [(''data'', JObj [(''a'', JNum 1), (''b'', JNum 2)])])))]"
  using kv1_envelope_stored[of "''secret/app''" "''app''" demo_client
      "\<lparr>kv_seq = 0, kv_time = (\<lambda>k. ''2026-01-01T00:00:00Z''), kv_rid = (\<lambda>k. ''req''), kv1_secrets = []\<rparr>"
      1 "[(''b'', JNum 2), (''a'', JNum 1)]" 2]
  by (simp add: strip_prefix_def own_keys_order_def is_array_index_def is_digit_char_def)

lemma mset_eq_pair: "mset xs = mset [a, b] \<Longrightarrow> xs = [a, b] \<or> xs = [b, a]"
proof -
  assume m: "mset xs = mset [a, b]"
  then have "length xs = 2"
    by (metis mset_eq_length length_Cons list.size(3) numeral_2_eq_2)
  then obtain x y where xs: "xs = [x, y]"
    by (cases xs rule: remdups_adj.cases) auto
  with m show ?thesis
    by (auto simp: add_eq_conv_ex)
qed

text \<open>
  C28. A write and a read of a secret that does not exist yet, sent
  together to a server on a version 2 mount, race: whatever the
  interleaving, the read is answered either with Vault's 404 (it was served
  first) or with the written object as version 1, created at the time of
  the first request (it was served second), and nothing else.
\<close>

theorem kv2_race_write_read:
  assumes "(conc_step kv2_backend c)\<^sup>*\<^sup>* (conc_init st0 [write_call 1 p (JObj kvs), path_call 2 ''vault_read'' p]) st"
    and "finished st" and "parse_kv_path p = KvData n" and "map_of (kv2_secrets st0) n = None"
  shows "(2, error_result ''vault_read'' (status_error 404)) \<in> set (replies st)
         \<or> (2, text_result (json_stringify
                (JObj [(''data'', go_json (canon (JObj kvs))), (''metadata'', kv2_meta (now st0) 1)])))
             \<in> set (replies st)"
proof -
  let ?w = "write_call 1 p (JObj kvs)" and ?r = "path_call 2 ''vault_read'' p"
  obtain kvs' where o: "go_json (canon (JObj kvs)) = JObj kvs'"
    by (rule go_json_canon_obj)
  have i: "conc_inv kv2_backend c st0 [?w, ?r] st"
    by (rule conc_inv_reach[OF assms(1)])
  then have h: "mset (history st) = mset [?w, ?r]"
    and r: "set (replies st) = set (fst (run_calls kv2_backend c st0 (history st)))"
    using assms(2) by (simp_all add: conc_inv_def finished_def flip: set_mset_mset)
  from mset_eq_pair[OF h] show ?thesis
  proof
    assume "history st = [?w, ?r]"
    then show ?thesis
      using r assms(3,4)
      by (simp add: write_call_def path_call_def request_defs kv_defs map_of_update kv2_next_version_def
          wire_envelope o now_def del: canon.simps go_json.simps)
  next
    assume "history st = [?r, ?w]"
    then show ?thesis
      using r assms(3,4)
      by (simp add: write_call_def path_call_def request_defs kv_defs map_of_update Let_def wire_envelope o
          del: canon.simps go_json.simps split: prod.split)
  qed
qed

theorem kv2_race_write_read_witness:
  "\<exists>st. (conc_step kv2_backend demo_client)\<^sup>*\<^sup>*
          (conc_init (demo_kv2 []) [write_call 1 ''secret/data/app'' (JObj [(''k'', JStr ''v'')]),
                                   path_call 2 ''vault_read'' ''secret/data/app'']) st
     \<and> finished st
     \<and> ((2, error_result ''vault_read'' (status_error 404)) \<in> set (replies st)
        \<or> (2, text_result (json_stringify
               (JObj [(''data'', JObj [(''k'', JStr ''v'')]),
                      (''metadata'', kv2_meta ''2026-01-01T00:00:00Z'' 1)])))
             \<in> set (replies st))"
proof -
  obtain st where run: "(conc_step kv2_backend demo_client)\<^sup>*\<^sup>*
      (conc_init (demo_kv2 []) [write_call 1 ''secret/data/app'' (JObj [(''k'', JStr ''v'')]),
                                path_call 2 ''vault_read'' ''secret/data/app'']) st" and fin: "finished st"
    using drain by blast
  have "parse_kv_path ''secret/data/app'' = KvData ''app''"
    by (simp add: parse_kv_path_def strip_prefix_def)
  moreover have "map_of (kv2_secrets (demo_kv2 [])) ''app'' = None"
    by (simp add: demo_kv2_def)
  ultimately have "(2, error_result ''vault_read'' (status_error 404)) \<in> set (replies st)
         \<or> (2, text_result (json_stringify
                (JObj [(''data'', go_json (canon (JObj [(''k'', JStr ''v'')]))),
                       (''metadata'', kv2_meta (now (demo_kv2 [])) 1)]))) \<in> set (replies st)"
    using kv2_race_write_read[OF run fin] by blast
  with run fin show ?thesis
    by (simp add: demo_kv2_def now_def own_keys_order_def is_array_index_def is_digit_char_def)
       blast
qed

end
