(* ===== verification/NodeVault.thy ===== *)
theory NodeVault
  imports Dispatcher
begin

text \<open>
  The Backend Client Adapter: what the \<open>node-vault\<close> client that
  \<open>src/src/index.ts\<close> builds (lines 23--27) does with the four calls the
  handlers make. It is library code, modelled after its documented
  behaviour (spec section 4.2): each call is one HTTP round trip to
  \<open><endpoint>/<apiVersion>/<path>\<close> with the token in the
  \<open>X-Vault-Token\<close> header (\<open>http_request_of\<close>); a response with status
  200 or 204 resolves with its body, any other status rejects with an
  \<open>Error\<close> whose message is the first entry of the body's \<open>errors\<close>, or
  \<open>Status <code>\<close> when there is none, and a transport failure rejects with
  its own message (\<open>vault_response\<close>). The health endpoint
  (\<open>sys/health\<close>) resolves whatever its status. The Vault server is a
  function \<open>'s http_server\<close> from a request and its state to an outcome
  and a new state; \<open>node_vault\<close> turns it into the \<open>'s backend\<close> of the
  \<open>Vault\<close> theory, so every lemma about the handlers applies to it.
\<close>

section \<open>HTTP requests and outcomes\<close>

datatype http_method = GET | PUT | LIST | DELETE

record http_request =
  http_method :: http_method
  http_uri :: string
  http_path :: string
  vault_token_header :: "string option"
  json_body :: "jsval option"

datatype http_outcome = HttpResponse nat jsval | HttpFailure string

type_synonym 's http_server = "http_request \<Rightarrow> 's \<Rightarrow> http_outcome \<times> 's"

text \<open>
  \<open>client.request\<close>: the URL is the endpoint, the API version and the
  path \<open>/${path}\<close>, the path interpolated with ToString; the token header is
  set when the token is a non-empty string.
\<close>

definition http_request_of :: "vault_client \<Rightarrow> vault_req \<Rightarrow> http_request" where
  "http_request_of c r =
     (let (m, p, body) =
        (case r of
           VRead p \<Rightarrow> (GET, p, None)
         | VWrite p d \<Rightarrow> (PUT, p, Some d)
         | VList p \<Rightarrow> (LIST, p, None)
         | VDelete p \<Rightarrow> (DELETE, p, None));
          path = ''/'' @ apiVersion c @ ''/'' @ js_to_string p
      in \<lparr>http_method = m, http_uri = endpoint c @ path, http_path = path,
          vault_token_header = (if token c = [] then None else Some (token c)),
          json_body = body\<rparr>)"

text \<open>\<open>s.match(/pat/) !== null\<close> for a pattern without special characters: \<open>pat\<close> occurs in \<open>s\<close>.\<close>

fun contains :: "string \<Rightarrow> string \<Rightarrow> bool" where
  "contains pat [] = (pat = [])"
| "contains pat (c # cs) = (take (length pat) (c # cs) = pat \<or> contains pat cs)"

text \<open>
  \<open>response.body && response.body.errors && response.body.errors.length > 0\<close>,
  then \<open>errors[0]\<close>: the first element of an array, the first character of a
  string.
\<close>

definition first_error :: "jsval \<Rightarrow> jsval option" where
  "first_error body =
     (case body of
        JObj kvs \<Rightarrow>
          (case obj_get kvs ''errors'' of
             JArr (e # _) \<Rightarrow> Some e
           | JStr (ch # _) \<Rightarrow> Some (JStr [ch])
           | _ \<Rightarrow> None)
      | _ \<Rightarrow> None)"

text \<open>\<open>handleVaultResponse\<close>, and the rejection of a failed transport.\<close>

definition vault_response :: "http_request \<Rightarrow> http_outcome \<Rightarrow> thrown + jsval" where
  "vault_response rq out =
     (case out of
        HttpFailure m \<Rightarrow> Inl (ErrorObj m)
      | HttpResponse code body \<Rightarrow>
          if code = 200 \<or> code = 204 \<or> contains ''sys/health'' (http_path rq) then Inr body
          else Inl (ErrorObj (case first_error body of
                                Some e \<Rightarrow> js_to_string e
                              | None \<Rightarrow> ''Status '' @ nat_digits code)))"

definition node_vault :: "'s http_server \<Rightarrow> 's backend" where
  "node_vault srv c s r =
     (case srv (http_request_of c r) s of (out, s') \<Rightarrow> (vault_response (http_request_of c r) out, s'))"

text \<open>A server that also records the HTTP requests it receives, in order.\<close>

definition http_logged :: "'s http_server \<Rightarrow> ('s \<times> http_request list) http_server" where
  "http_logged srv rq st = (case srv rq (fst st) of (out, s') \<Rightarrow> (out, (s', snd st @ [rq])))"

section \<open>Properties of the adapter\<close>

lemma node_vault_apply:
  "node_vault srv c s r = (vault_response (http_request_of c r) (fst (srv (http_request_of c r) s)),
                           snd (srv (http_request_of c r) s))"
  by (simp add: node_vault_def split: prod.split)

text \<open>
  Each tool call through node-vault is at most one HTTP round trip: the one
  request its contract names (\<open>tool_request\<close>), sent to the configured
  endpoint with the configured token, and none when the handler throws
  before its \<open>await\<close>.
\<close>

lemma one_round_trip:
  "snd (snd (call_tool (node_vault (http_logged srv)) c nm args (s, log))) =
     log @ (case tool_request nm args of None \<Rightarrow> [] | Some r \<Rightarrow> [http_request_of c r])"
  by (simp add: call_tool_state node_vault_apply http_logged_def split: option.split prod.split)

lemma http_request_target:
  "http_uri (http_request_of c r) = endpoint c @ ''/'' @ apiVersion c @ ''/'' @ js_to_string (req_path r)
   \<and> vault_token_header (http_request_of c r) = (if token c = [] then None else Some (token c))"
  by (cases r) (simp_all add: http_request_of_def Let_def)

text \<open>
  C31. A request Vault refuses is reported with Vault's own words: when the
  server answers with a status other than 200 or 204 (not on the health
  endpoint), the call is answered with the error result whose message is the
  first entry of the body's \<open>errors\<close>, or \<open>Status <code>\<close> when the body
  has none.
\<close>

theorem vault_error_reported:
  assumes "tool_request nm args = Some r"
    and "srv (http_request_of c r) s = (HttpResponse code body, s')"
    and "code \<noteq> 200" "code \<noteq> 204" "\<not> contains ''sys/health'' (http_path (http_request_of c r))"
  shows "call_tool (node_vault srv) c nm args s =
           (error_result nm (ErrorObj (case first_error body of
                                         Some e \<Rightarrow> js_to_string e
                                       | None \<Rightarrow> ''Status '' @ nat_digits code)), s')"
  using assms
  by (simp add: call_tool_eq node_vault_apply vault_response_def catch_result_def)

theorem vault_error_reported_witness:
  "call_tool (node_vault (\<lambda>rq s. (HttpResponse 403 (JObj [(''errors'', JArr [JStr ''permission denied''])]), s)))
     \<lparr>apiVersion = ''v1'', endpoint = ''http://127.0.0.1:8200'', token = ''t''\<rparr>
     ''vault_read'' (Some [(''path'', JStr ''secret/data/app'')]) (0::nat)
   = (\<lparr>content = [\<lparr>item_type = ''text'', item_text = Some ''Error executing vault_read: permission denied''\<rparr>],
       isError = Some True\<rparr>, 0)"
proof -
  let ?c = "\<lparr>apiVersion = ''v1'', endpoint = ''http://127.0.0.1:8200'', token = ''t''\<rparr>"
  have h: "\<not> contains ''sys/health'' (http_path (http_request_of ?c (VRead (JStr ''secret/data/app''))))"
    by (simp add: http_request_of_def Let_def)
  show ?thesis
    using vault_error_reported[of "''vault_read''" "Some [(''path'', JStr ''secret/data/app'')]"
        "VRead (JStr ''secret/data/app'')" "\<lambda>rq s. (HttpResponse 403 (JObj [(''errors'', JArr [JStr ''permission denied''])]), s)"
        ?c "0::nat" 403 "JObj [(''errors'', JArr [JStr ''permission denied''])]" 0] h
    by (simp add: tool_request_def obj_get_def first_error_def error_result_def error_message_def
        http_request_of_def Let_def)
qed

text \<open>
  A \<open>vault_delete\<close> without a \<open>path\<close> (C19) is not stopped by the
  adapter: node-vault interpolates \<open>undefined\<close> into the URL and sends
  \<open>DELETE <endpoint>/v1/undefined\<close>.
\<close>

lemma delete_without_path_request:
  "tool_request ''vault_delete'' (Some []) = Some r \<Longrightarrow>
     http_method (http_request_of c r) = DELETE
     \<and> http_uri (http_request_of c r) = endpoint c @ ''/'' @ apiVersion c @ ''/undefined''"
  by (auto simp: tool_request_def obj_get_def http_request_of_def Let_def)

end
