(* ===== verification/Spec2Isabelle.thy ===== *)
theory Spec2Isabelle
  imports JsonParse KvBackend NodeVault
begin

text \<open>
  \<^bold>\<open>A verification model of vault-mcp.\<close>
  The repository is one TypeScript file, \<open>src/src/index.ts\<close>: an MCP
  server that exposes four tools (\<open>vault_read\<close>, \<open>vault_write\<close>,
  \<open>vault_list\<close>, \<open>vault_delete\<close>) over stdio and forwards each call to a
  HashiCorp Vault server through the \<open>node-vault\<close> client. Its parts and
  how they interact:
  \<^item> start-up (lines 12--27, 189--199) reads \<open>VAULT_ADDR\<close> and
    \<open>VAULT_TOKEN\<close>, exits when the token is missing, builds the client and
    connects the stdio transport;
  \<^item> the tool catalog \<open>TOOLS\<close> (lines 30--91), returned by the ListTools
    handler (lines 106--111);
  \<^item> the CallTool handler (lines 113--187): a \<open>switch\<close> on the tool name
    inside \<open>try\<close>, each case destructuring its arguments, making one client
    call and rendering the answer with \<open>JSON.stringify(\<dots>, null, 2)\<close>,
    and a \<open>catch\<close> block that renders every thrown value as an error result;
  \<^item> the node-vault client and the MCP SDK, libraries the file only calls.

  \<^bold>\<open>Theories.\<close>
  \<^item> \<open>Prelude\<close>: rule collections, the characters string literals cannot
    spell, \<open>join_with\<close> (\<open>Array.prototype.join\<close>).
  \<^item> \<open>JsValue\<close>: the JavaScript values that cross the handlers
    (\<open>jsval\<close>, objects as association lists in creation order), thrown
    values, ECMAScript ToString (\<open>js_to_string\<close>, used by \<open>String(error)\<close>
    and template literals), property reads \<open>get_member\<close> and destructuring
    \<open>destructure\<close> with V8's TypeError messages.
  \<^item> \<open>JsonStringify\<close>: \<open>JSON.stringify(v, null, 2)\<close> after ECMA-262
    (\<open>ser\<close>, \<open>quote_json_string\<close>, \<open>own_keys_order\<close>), the built-in the
    handlers render every answer with, and the lemma that its output holds
    no control character but the newlines of its layout.
  \<^item> \<open>JsonParse\<close>: the client's side of the text content, a reference
    \<open>JSON.parse\<close> (\<open>json_parse\<close>, a mutual \<open>fun\<close> over values,
    elements and members with fuel), and \<open>parse_stringify\<close>: the text of
    a value parses back to the value with \<open>undefined\<close> properties dropped,
    \<open>undefined\<close> elements as \<open>null\<close> and keys in enumeration order
    (\<open>canon\<close>).
  \<^item> \<open>Catalog\<close>: \<open>TOOLS\<close> verbatim as records, and \<open>conforms\<close>, the
    meaning of an input schema, which the code never checks.
  \<^item> \<open>Vault\<close>: the client record and the four requests; a backend is any
    function \<open>'s backend\<close> from client, state and request to a resolved
    body or a thrown value and a new state, so every lemma about the
    handlers holds for every Vault server and every failure pattern.
    \<open>logged\<close> records the requests a backend receives.
  \<^item> \<open>Dispatcher\<close>: the four handlers, \<open>dispatch\<close> (the \<open>switch\<close>),
    \<open>call_tool\<close> (the whole handler with its \<open>catch\<close>); every throw is an
    \<open>Inl\<close> branch. Its second half states the contract of a call
    (\<open>tool_request\<close>, \<open>render_response\<close>, \<open>rejection\<close>) and proves that
    the code refines it (C1), makes exactly the one request it names (C3,
    C4), reports failures (C5, C6) and renders answers (C7--C11).
  \<^item> \<open>Server\<close>: configuration (\<open>load_config\<close>, \<open>make_client\<close>), the
    request handler \<open>handle_request\<close>, and the process as the inductive
    step relation \<open>proc_step\<close> over the phases \<open>Booting\<close>,
    \<open>Connecting\<close>, \<open>Serving\<close>, \<open>Exited\<close>, each step labelled with what
    it prints or answers; \<open>proc_run\<close> chains steps. The process exits
    with status 1 when the token is missing (line 19) or the transport
    fails (lines 196--199), and with status 0 when its input closes while
    serving (the SDK's stdio transport then keeps nothing alive). Lemmas
    \<open>run_from_Booting\<close>, \<open>run_from_Connecting\<close>, \<open>run_from_Serving\<close>
    describe every run; the claims C12--C16 and C30 follow from them, C14
    with the catalog: the tools listed are the tools the \<open>switch\<close>
    handles, and arguments their schemas accept become well-typed requests.
  \<^item> \<open>Concurrency\<close>: the SDK starts the CallTool handler for each
    request as it arrives, so calls interleave at their one \<open>await\<close>.
    \<open>conc_step\<close> is the step relation on the server's calls (start up
    to the \<open>await\<close> or the synchronous throw, Vault serving any request
    in flight, the continuation of any settled call), with a history
    variable recording the order in which calls took effect. Every finished
    run answers as the calls handled one after another in that order
    (\<open>run_calls\<close>, C22), and every request is answered exactly once
    (C23); the lemma \<open>drain\<close> (by the measure \<open>conc_measure\<close>) gives a
    finished run from any state.
  \<^item> \<open>NodeVault\<close>: the Backend Client Adapter, node-vault's side of each
    call after its documented behaviour: one HTTP request to
    \<open><endpoint>/v1/<path>\<close> with the token header
    (\<open>http_request_of\<close>, \<open>one_round_trip\<close>), and the mapping of the
    response to a resolved body or a rejection (\<open>vault_response\<close>:
    Vault's first error message, else \<open>Status <code>\<close>). \<open>node_vault\<close>
    turns an HTTP server into a backend; through it a refused request is
    answered with Vault's own message (C31), and a delete without a path
    becomes \<open>DELETE /v1/undefined\<close>.
  \<^item> \<open>KvBackend\<close>: reference backends for end-to-end properties, Vault's
    key-value engine as its HTTP API documents it, behind node-vault's
    JSON encoding and Vault's (\<open>go_json\<close>: last repeated key wins, keys
    sorted), with Vault's response envelope (\<open>vault_body\<close>) and request
    ids and timestamps drawn from the state's clock (\<open>vault_clock\<close>):
    version 2 (\<open>kv2_backend\<close>: \<open>secret/data/<name>\<close>, versions with
    their metadata, soft delete, folder listing under
    \<open>secret/metadata/<folder>\<close>) and version 1 (\<open>kv1_backend\<close>, mounted
    at \<open>secret/\<close>). Through the real handlers: a written secret reads
    back with its metadata (C24), a deleted one reads as 404 (C25), a
    written one is listed in its folder (C26), on version 1 the write
    envelope is stored inside the secret (C27), and a write and a read
    racing on a new secret answer the read in exactly one of two ways (C28,
    from the invariant of \<open>Concurrency\<close>).
  \<^item> this theory: the properties that span components: the catalog and
    the switch agree (C2, C18); what a client reads from a successful reply,
    whose text holds no raw control character (C17) and parses back to the
    rendered value (C21); and behaviour the specification leaves open
    (C19, C20, C29).

  \<^bold>\<open>Choices and bounds.\<close> Numbers are integers and stand for
  JavaScript's safe integers (\<open>|n| < 2^53\<close>): Vault and the MCP client
  exchange integer-valued JSON numbers, and for safe integers ToString
  prints the decimal digits \<open>number_to_string\<close> prints; fractions and
  the exponent form ToString uses from \<open>10^21\<close> on are not modelled.
  Strings are lists of 8-bit characters, so \<open>\u\<close> escapes are
  produced only for control characters below 32, as ECMA-262 does for code
  units below 256. In \<open>Server\<close> requests are handled one at a time, each
  to completion; \<open>Concurrency\<close> drops that simplification and shows it
  sound: each call makes one backend request and shares no state with
  another, so every interleaving answers as some sequential order (C22).
  The serialiser \<open>ser\<close> terminates by the
  size of the value. The reader \<open>json_parse\<close> runs on fuel and is given
  the length of its input: each unit of fuel is one parser call, and
  \<open>fuel_le_length\<close> shows that the text of a value is at least as long as
  the calls its parse makes, so the reader of C21 never runs out.

  \<^bold>\<open>Not modelled.\<close> The MCP SDK's JSON-RPC framing, its request schema
  validation and the stdio transport (library code; modelled only through
  the request and response values the handlers see); the HTTP transport
  below node-vault (an HTTP server is any function from request and state
  to outcome and state; the Vault server itself has the reference models of
  \<open>KvBackend\<close> for end-to-end properties, and every other lemma holds
  for any backend); node-vault's request options beyond those the handlers
  pass (retries, TLS, namespaces); query strings inside a path
  (\<open>?version=\<close>), which the KV models read as part of the name; the
  contents of the fatal-error message of \<open>main\<close> (any message).
\<close>

section \<open>Catalog and dispatcher agree\<close>

lemma switch_names_tool_names: "switch_names = tool_names"
  by (simp add: switch_names_def tool_names_eq)

text \<open>
  C2. A call that names no tool of the catalog makes no backend request and
  is answered with an error result whose text is
  \<open>Error executing <name>: Unknown tool: <name>\<close>: the error thrown by the
  \<open>default\<close> branch is caught by the handler's own \<open>catch\<close> block, not
  propagated to the transport.
\<close>

theorem unknown_tool_caught:
  assumes "nm \<notin> set tool_names"
  shows "call_tool b c nm args s =
           (\<lparr>content = [\<lparr>item_type = ''text'',
                           item_text = Some (''Error executing '' @ nm @ '': Unknown tool: '' @ nm)\<rparr>],
             isError = Some True\<rparr>, s)"
  using assms
  by (simp add: call_tool_def dispatch_def tool_names_eq error_result_def error_message_def)

theorem unknown_tool_caught_witness:
  "''vault_purge'' \<notin> set tool_names
   \<and> call_tool (\<lambda>c s r. (Inr JNull, s)) \<lparr>apiVersion = ''v1'', endpoint = ''e'', token = ''t''\<rparr>
       ''vault_purge'' None (0::nat) =
     (\<lparr>content = [\<lparr>item_type = ''text'',
                     item_text = Some ''Error executing vault_purge: Unknown tool: vault_purge''\<rparr>],
       isError = Some True\<rparr>, 0)"
proof -
  have h: "''vault_purge'' \<notin> set tool_names"
    by (simp add: tool_names_eq)
  show ?thesis
    using h unknown_tool_caught [OF h, where b = "\<lambda>c s r. (Inr JNull, s)" and args = None and s = "0::nat"
        and c = "\<lparr>apiVersion = ''v1'', endpoint = ''e'', token = ''t''\<rparr>"]
    by simp
qed

section \<open>Behaviour the specification leaves open\<close>

text \<open>
  C18. A call to a known tool without an \<open>arguments\<close> object makes no
  backend request: destructuring \<open>undefined\<close> throws V8's TypeError, which
  the \<open>catch\<close> block reports.
\<close>

theorem missing_arguments_rejected:
  assumes "nm \<in> set tool_names"
  shows \<open>call_tool b c nm None s =
           (error_result nm (ErrorObj ''Cannot destructure property \'path\' of \'args\' as it is undefined.''), s)\<close>
  using assms
  by (auto simp: tool_names_eq handler_defs destructure_error_def)

theorem missing_arguments_rejected_witness:
  \<open>''vault_list'' \<in> set tool_names
   \<and> call_tool (\<lambda>c s r. (Inr JNull, s)) \<lparr>apiVersion = ''v1'', endpoint = ''e'', token = ''t''\<rparr>
       ''vault_list'' None (0::nat)
     = (error_result ''vault_list'' (ErrorObj ''Cannot destructure property \'path\' of \'args\' as it is undefined.''), 0)\<close>
proof -
  have h: "''vault_list'' \<in> set tool_names" by (simp add: tool_names_eq)
  show ?thesis
    using h missing_arguments_rejected [OF h, where b = "\<lambda>c s r. (Inr JNull, s)" and s = "0::nat"
        and c = "\<lparr>apiVersion = ''v1'', endpoint = ''e'', token = ''t''\<rparr>"]
    by simp
qed

text \<open>
  C19. Arguments are not checked against the declared input schema: a
  \<open>vault_delete\<close> call whose arguments lack the required \<open>path\<close> still
  sends a delete, for the path \<open>undefined\<close>, and when the backend accepts
  it reports \<open>Successfully deleted secret at path: undefined\<close>.
\<close>

theorem unvalidated_delete:
  assumes "fst (b c s (VDelete JUndefined)) = Inr v"
  shows "call_tool b c ''vault_delete'' (Some []) s =
           (text_result (Some ''Successfully deleted secret at path: undefined''), snd (b c s (VDelete JUndefined)))"
proof -
  from assms obtain s' where "b c s (VDelete JUndefined) = (Inr v, s')"
    by (cases "b c s (VDelete JUndefined)") simp
  then show ?thesis
    by (simp add: call_tool_eq contract_simps obj_get_def delete_message_def)
qed

theorem unvalidated_delete_witness:
  "\<not> conforms (inputSchema (TOOLS ! 3)) (Some [])
   \<and> fst ((\<lambda>c s r. (Inr JUndefined, s)) \<lparr>apiVersion = ''v1'', endpoint = ''e'', token = ''t''\<rparr> (0::nat)
          (VDelete JUndefined)) = Inr JUndefined
   \<and> call_tool (\<lambda>c s r. (Inr JUndefined, s)) \<lparr>apiVersion = ''v1'', endpoint = ''e'', token = ''t''\<rparr>
       ''vault_delete'' (Some []) (0::nat)
     = (text_result (Some ''Successfully deleted secret at path: undefined''), 0)"
proof -
  have "\<not> conforms (inputSchema (TOOLS ! 3)) (Some [])"
    by (simp add: conforms_def TOOLS_def)
  with unvalidated_delete [where b = "\<lambda>c s r. (Inr JUndefined, s)" and s = "0::nat" and v = JUndefined
      and c = "\<lparr>apiVersion = ''v1'', endpoint = ''e'', token = ''t''\<rparr>"]
  show ?thesis by simp
qed

text \<open>
  C20. A write the backend acknowledges without a body (Vault answers a
  KV version 1 write with 204 No Content, and the client resolves with
  \<open>undefined\<close>) is reported as a success whose text is \<open>undefined\<close>:
  \<open>JSON.stringify(undefined)\<close> is not a string.
\<close>

theorem write_without_body:
  assumes "b c s (VWrite (obj_get kvs ''path'') (JObj [(''data'', obj_get kvs ''data'')])) = (Inr JUndefined, s')"
  shows "call_tool b c ''vault_write'' (Some kvs) s = (text_result None, s')"
  using assms by (simp add: call_tool_eq contract_simps json_stringify_def)

theorem write_without_body_witness:
  "(\<lambda>c s r. (Inr JUndefined, s)) \<lparr>apiVersion = ''v1'', endpoint = ''e'', token = ''t''\<rparr> (0::nat)
       (VWrite JUndefined (JObj [(''data'', JUndefined)])) = (Inr JUndefined, 0)
   \<and> call_tool (\<lambda>c s r. (Inr JUndefined, s)) \<lparr>apiVersion = ''v1'', endpoint = ''e'', token = ''t''\<rparr>
       ''vault_write'' (Some []) (0::nat) = (text_result None, 0)"
  using write_without_body [where b = "\<lambda>c s r. (Inr JUndefined, s)" and kvs = "[]" and s = "0::nat"
      and s' = "0::nat" and c = "\<lparr>apiVersion = ''v1'', endpoint = ''e'', token = ''t''\<rparr>"]
  by (simp add: obj_get_def)

text \<open>
  C29. \<open>vault_read\<close> and \<open>vault_list\<close> read \<open>result.data\<close> without a
  check (lines 126, 153): when the client resolves with no body
  (\<open>undefined\<close>) or with \<open>null\<close>, the property read throws V8's
  TypeError, and the call is answered with an error result that quotes it,
  not with the backend's answer.
\<close>

theorem read_without_body:
  assumes "(nm, r) = (''vault_read'', VRead (obj_get kvs ''path'')) \<or> (nm, r) = (''vault_list'', VList (obj_get kvs ''path''))"
    and "b c s r = (Inr v, s')" and "v = JUndefined \<or> v = JNull"
  shows "call_tool b c nm (Some kvs) s =
           (error_result nm (ErrorObj (read_error (js_to_string v) ''data'')), s')"
  using assms
  by (elim disjE; simp add: call_tool_eq contract_simps)

theorem read_without_body_witness:
  \<open>call_tool (\<lambda>c s r. (Inr JUndefined, s)) demo_client ''vault_read'' (Some [(''path'', JStr ''secret/data/app'')]) (0::nat)
     = (\<lparr>content = [\<lparr>item_type = ''text'',
          item_text = Some ''Error executing vault_read: Cannot read properties of undefined (reading \'data\')''\<rparr>],
         isError = Some True\<rparr>, 0)\<close>
  using read_without_body[of "''vault_read''" "VRead (JStr ''secret/data/app'')" "[(''path'', JStr ''secret/data/app'')]"
      "\<lambda>c s r. (Inr JUndefined, s)" demo_client "0::nat" JUndefined 0]
  by (simp add: error_result_def error_message_def read_error_def obj_get_def)

section \<open>What a client reads from a successful reply\<close>

lemma keys_distinct_obj_get: "keys_distinct (JObj kvs) \<Longrightarrow> keys_distinct (obj_get kvs k)"
  by (auto simp: obj_get_def dest: map_of_SomeD split: option.split)

text \<open>
  A successful reply of \<open>vault_read\<close>, \<open>vault_write\<close> or \<open>vault_list\<close>
  comes from one request the backend answered, and its text is
  \<open>JSON.stringify\<close> of the rendered value: the whole body for a write,
  its \<open>data\<close> member otherwise.
\<close>

lemma success_reply:
  assumes "call_tool b c nm args s = (r, s')" "isError r \<noteq> Some True" "nm \<noteq> ''vault_delete''"
  obtains rq v d where "tool_request nm args = Some rq" "b c s rq = (Inr v, s')"
    "(if nm = ''vault_write'' then Inr v else get_member v ''data'') = Inr d"
    "r = text_result (json_stringify d)"
proof (cases "tool_request nm args")
  case None
  then show ?thesis
    using assms by (auto simp: call_tool_eq error_result_def)
next
  case (Some rq)
  obtain x s1 where bx: "b c s rq = (x, s1)"
    by fastforce
  show ?thesis
  proof (cases x)
    case (Inl e)
    then show ?thesis
      using assms Some bx by (auto simp: call_tool_eq catch_result_def error_result_def)
  next
    case (Inr v)
    then show ?thesis
      using assms Some bx that
      by (auto simp: call_tool_eq render_response_def catch_result_def error_result_def
          split: sum.splits if_splits)
  qed
qed

text \<open>
  C17. The text of every successful \<open>vault_read\<close>, \<open>vault_write\<close> and
  \<open>vault_list\<close> reply holds no control character other than the
  newlines of its layout, whatever the secret holds: every control
  character of a stored string or key is escaped. (\<open>vault_delete\<close>'s
  text echoes the path as given.)
\<close>

theorem success_text_printable:
  assumes "call_tool b c nm args s = (r, s')" and "isError r \<noteq> Some True" and "nm \<noteq> ''vault_delete''"
    and "item \<in> set (content r)" and "item_text item = Some t"
  shows "\<forall>ch \<in> set t. ch = nl \<or> 32 \<le> (of_char ch :: nat)"
proof -
  obtain d where "r = text_result (json_stringify d)"
    using success_reply [OF assms(1-3)] by blast
  with assms(4,5) have "json_stringify d = Some t"
    by (simp add: text_result_def)
  then show ?thesis
    by (rule json_output_printable)
qed

text \<open>
  C21. A client that runs \<open>JSON.parse\<close> on the text of a successful
  \<open>vault_read\<close>, \<open>vault_write\<close> or \<open>vault_list\<close> reply gets back the
  value the handler rendered (the body's \<open>data\<close>, or the whole body for a
  write), with \<open>undefined\<close> properties dropped, \<open>undefined\<close> elements as
  \<open>null\<close> and keys in enumeration order, whenever the backend's body has
  no repeated key.
\<close>

theorem reply_reads_back:
  assumes "call_tool b c nm args s = (text_result (Some t), s')" and "nm \<noteq> ''vault_delete''"
    and "tool_request nm args = Some rq" and "b c s rq = (Inr v, s')" and "keys_distinct v"
  shows "\<exists>d. (if nm = ''vault_write'' then Inr v else get_member v ''data'') = Inr d
           \<and> json_parse t = Some (canon d)"
proof -
  obtain rq' v' d where rq': "tool_request nm args = Some rq'" "b c s rq' = (Inr v', s')"
      and d: "(if nm = ''vault_write'' then Inr v' else get_member v' ''data'') = Inr d"
      and r: "text_result (Some t) = text_result (json_stringify d)"
    using success_reply [OF assms(1) _ assms(2)] by (auto simp: text_result_def)
  have "v' = v"
    using rq' assms(3,4) by simp
  moreover have "keys_distinct d"
    using d assms(5) \<open>v' = v\<close> by (cases v) (auto intro: keys_distinct_obj_get split: if_splits)
  moreover have "json_stringify d = Some t"
    using r by (simp add: text_result_def)
  ultimately show ?thesis
    using d by (auto intro: parse_stringify)
qed

theorem success_text_printable_witness:
  \<open>list_all (\<lambda>ch. ch = nl \<or> 32 \<le> (of_char ch :: nat)) (''{'' @ [nl] @ ''  "k": "a'' @ [bslash] @ ''t"'' @ [nl] @ ''}'')\<close>
proof -
  have \<open>call_tool (\<lambda>c s r. (Inr (JObj [(''data'', JObj [(''k'', JStr [CHR ''a'', CHR 0x09])])]), s)) demo_client
          ''vault_read'' (Some [(''path'', JStr ''secret/data/app'')]) (0::nat)
        = (text_result (Some (''{'' @ [nl] @ ''  "k": "a'' @ [bslash] @ ''t"'' @ [nl] @ ''}'')), 0)\<close>
    by (simp add: call_tool_eq contract_simps obj_get_def json_stringify_def ser_wrap_def json_gap_def
        quote_json_string_def json_escape_char_def own_keys_order_def is_array_index_def is_digit_char_def)
  then have \<open>\<forall>ch \<in> set (''{'' @ [nl] @ ''  "k": "a'' @ [bslash] @ ''t"'' @ [nl] @ ''}''). ch = nl \<or> 32 \<le> (of_char ch :: nat)\<close>
    by (rule success_text_printable [where item = \<open>\<lparr>item_type = ''text'',
          item_text = Some (''{'' @ [nl] @ ''  "k": "a'' @ [bslash] @ ''t"'' @ [nl] @ ''}'')\<rparr>\<close>])
      (simp_all add: text_result_def)
  then show ?thesis
    unfolding list_all_iff .
qed

theorem reply_reads_back_witness:
  \<open>json_parse (''{'' @ [nl] @ ''  "k": "a'' @ [bslash] @ ''t"'' @ [nl] @ ''}'')
     = Some (JObj [(''k'', JStr [CHR ''a'', CHR 0x09])])\<close>
proof -
  have \<open>call_tool (\<lambda>c s r. (Inr (JObj [(''data'', JObj [(''k'', JStr [CHR ''a'', CHR 0x09])])]), s)) demo_client
          ''vault_read'' (Some [(''path'', JStr ''secret/data/app'')]) (0::nat)
        = (text_result (Some (''{'' @ [nl] @ ''  "k": "a'' @ [bslash] @ ''t"'' @ [nl] @ ''}'')), 0)\<close>
    by (simp add: call_tool_eq contract_simps obj_get_def json_stringify_def ser_wrap_def json_gap_def
        quote_json_string_def json_escape_char_def own_keys_order_def is_array_index_def is_digit_char_def)
  from reply_reads_back [OF this, where rq = "VRead (JStr ''secret/data/app'')"
      and v = "JObj [(''data'', JObj [(''k'', JStr [CHR ''a'', CHR 0x09])])]"] show ?thesis
    by (simp add: tool_request_def obj_get_def own_keys_order_def is_array_index_def is_digit_char_def)
qed

end
